theory Spec2Isabelle
  imports Main
begin

section \<open>Data model\<close>

text \<open>
  The blocks handled by \<^verbatim>\<open>modules/notionUtils.js\<close> are the block objects of the
  remote document service. The code reads four things of a block: \<^verbatim>\<open>block.id\<close>,
  \<^verbatim>\<open>block.type\<close>, \<^verbatim>\<open>block.has_children\<close> and the type-specific payload
  \<^verbatim>\<open>block[block.type]\<close>, of which it reads \<^verbatim>\<open>rich_text\<close>. A property that may be
  missing (\<^verbatim>\<open>undefined\<close> or \<^verbatim>\<open>null\<close>) is an \<open>option\<close>. The service types
  \<^verbatim>\<open>rich_text\<close> as an array of segment objects, so a value that is present is an array,
  which JavaScript counts as truthy even when it is empty; values of other types, which
  the \<^verbatim>\<open>Array.isArray\<close> guard of \<^verbatim>\<open>getPlainTextFromRichText\<close> would turn into the
  empty string, are outside this type.
\<close>

record rich_text_item =
  plain_text :: "string option"

record type_payload =
  rich_text :: "rich_text_item list option"

record block =
  block_id :: string
  block_type :: string
  has_children :: bool
  payload :: "type_payload option"

text \<open>\<^verbatim>\<open>SimpleBlockType\<close> of \<^verbatim>\<open>types.ts\<close>. The optional \<^verbatim>\<open>parentBlockId\<close> is \<open>None\<close>
  where the code stores \<^verbatim>\<open>null\<close>.\<close>

record simple_block =
  blockId :: string
  text_ :: string
  blockType :: string
  parentBlockId :: "string option"

section \<open>Plain text of a block\<close>

text \<open>\<^verbatim>\<open>Array.prototype.join(sep)\<close> on an array of strings.\<close>

fun join :: "string \<Rightarrow> string list \<Rightarrow> string" where
  "join sep [] = []"
| "join sep [x] = x"
| "join sep (x # y # ys) = x @ sep @ join sep (y # ys)"

text \<open>\<^verbatim>\<open>v || d\<close> for a string property \<open>v\<close> that may be missing: the missing value and the
  empty string are falsy.\<close>

definition or_string :: "string option \<Rightarrow> string \<Rightarrow> string" where
  "or_string v d = (case v of None \<Rightarrow> d | Some s \<Rightarrow> if s = [] then d else s)"

text \<open>
  \<^verbatim>\<open>if (!richText || !Array.isArray(richText)) return "";\<close>
  \<^verbatim>\<open>return richText.map(t => t.plain_text || "").join("");\<close>
\<close>

definition getPlainTextFromRichText :: "rich_text_item list option \<Rightarrow> string" where
  "getPlainTextFromRichText richText =
     (case richText of
        None \<Rightarrow> []
      | Some rt \<Rightarrow> join [] (map (\<lambda>t. or_string (plain_text t) []) rt))"

text \<open>
  \<^verbatim>\<open>if (block[block.type] && block[block.type].rich_text)\<close>
  \<^verbatim>\<open>  return getPlainTextFromRichText(block[block.type].rich_text);\<close>
  \<^verbatim>\<open>return `[${block.type}]`;\<close>
\<close>

definition extractTextContent :: "block \<Rightarrow> string" where
  "extractTextContent b =
     (case payload b of
        None \<Rightarrow> ''['' @ block_type b @ '']''
      | Some p \<Rightarrow>
          (case rich_text p of
             None \<Rightarrow> ''['' @ block_type b @ '']''
           | Some rt \<Rightarrow> getPlainTextFromRichText (Some rt)))"

section \<open>Remote service, call trace and console\<close>

text \<open>
  The client of the remote service is an object whose methods perform network requests.
  A request either returns a response or throws; it may also change the remote state,
  whose type \<open>'r\<close> is left open. Each method is a function of its arguments and the
  remote state that returns \<open>Inr\<close> the response or \<open>Inl\<close> the error thrown, with the
  remote state after the request.
\<close>

text \<open>An error is thrown by the client (\<open>ServiceError\<close>) or by the JavaScript engine
  (\<open>RangeError\<close>, when a call is given more arguments than the engine accepts).\<close>

datatype error = ServiceError string | RangeError

datatype page = PageObject string

record list_response =
  resp_results :: "block list"

text \<open>The request bodies that \<^verbatim>\<open>addText\<close> and \<^verbatim>\<open>updateBlock\<close> build:
  \<^verbatim>\<open>{ type: 'text', text: { content: text } }\<close> inside
  \<^verbatim>\<open>paragraph: { rich_text: [...] }\<close>.\<close>

record text_object =
  content :: string

record rich_text_input =
  input_type :: string
  input_text :: text_object

record paragraph_input =
  input_rich_text :: "rich_text_input list"

record new_block =
  new_object :: string
  new_type :: string
  new_paragraph :: paragraph_input

datatype request =
    PagesRetrieve string
  | BlocksChildrenAppend string "new_block list"
  | BlocksChildrenList string
  | BlocksDelete string
  | BlocksRetrieve string
  | BlocksUpdate string paragraph_input

datatype log_entry =
    ConsoleError string error
  | ConsoleWarn string

record 'r client =
  pages_retrieve :: "string \<Rightarrow> 'r \<Rightarrow> (error + page) \<times> 'r"
  blocks_children_append :: "string \<Rightarrow> new_block list \<Rightarrow> 'r \<Rightarrow> (error + list_response) \<times> 'r"
  blocks_children_list :: "string \<Rightarrow> 'r \<Rightarrow> (error + list_response) \<times> 'r"
  blocks_delete :: "string \<Rightarrow> 'r \<Rightarrow> (error + block) \<times> 'r"
  blocks_retrieve :: "string \<Rightarrow> 'r \<Rightarrow> (error + block) \<times> 'r"
  blocks_update :: "string \<Rightarrow> paragraph_input \<Rightarrow> 'r \<Rightarrow> (error + block) \<times> 'r"

text \<open>The world of a run: the state of the remote service, the requests sent to it so
  far (oldest first), the lines written to the console, and the number of arguments the
  engine accepts in one call, which no operation changes.\<close>

record 'r world =
  remote :: 'r
  trace :: "request list"
  console :: "log_entry list"
  arg_limit :: nat

text \<open>\<^verbatim>\<open>await client.method(args)\<close>: the request is sent (and recorded), the remote state
  moves on, and the caller resumes with the response or the error.\<close>

definition await :: "request \<Rightarrow> ('r \<Rightarrow> 'a \<times> 'r) \<Rightarrow> 'r world \<Rightarrow> 'a \<times> 'r world" where
  "await req method w =
     (case method (remote w) of
        (res, r') \<Rightarrow> (res, w\<lparr>remote := r', trace := trace w @ [req]\<rparr>))"

definition console_error :: "string \<Rightarrow> error \<Rightarrow> 'r world \<Rightarrow> 'r world" where
  "console_error msg err w = w\<lparr>console := console w @ [ConsoleError msg err]\<rparr>"

definition console_warn :: "string \<Rightarrow> 'r world \<Rightarrow> 'r world" where
  "console_warn msg w = w\<lparr>console := console w @ [ConsoleWarn msg]\<rparr>"

text \<open>\<^verbatim>\<open>results.push(...items)\<close> passes every element of \<open>items\<close> as an argument of one
  call: beyond the engine's limit the call throws a \<^verbatim>\<open>RangeError\<close> and pushes nothing.\<close>

definition spread_push :: "nat \<Rightarrow> 'a list \<Rightarrow> 'a list \<Rightarrow> error + 'a list" where
  "spread_push limit results items =
     (if limit < length items then Inl RangeError else Inr (results @ items))"

section \<open>The block flattener\<close>

text \<open>The record that \<^verbatim>\<open>processBlockWithChildren\<close> pushes for the current block.\<close>

definition block_record :: "block \<Rightarrow> string option \<Rightarrow> simple_block" where
  "block_record b parentId =
     \<lparr>blockId = block_id b, text_ = extractTextContent b,
      blockType = block_type b, parentBlockId = parentId\<rparr>"

text \<open>
  \<^verbatim>\<open>processBlockWithChildren(block, client, parentId = null)\<close> recurses as deep as the
  remote tree is nested, and does not return when the service keeps answering with
  children. The first argument bounds the nesting depth that is followed: \<open>None\<close> means
  that the bound was too small for the call to return. \<open>processChildren\<close> is the
  \<^verbatim>\<open>for (const childBlock of childrenResponse.results)\<close> loop, with \<open>results\<close> the array
  pushed so far; it returns the array, the error that ended the loop early if one was
  thrown, and the world. The \<^verbatim>\<open>try\<close> block encloses the request and the loop, so the
  \<^verbatim>\<open>catch\<close> receives a failure of the request and a failure of a push alike: it writes
  the same console line and the function returns what was pushed before. The recursive
  call has its own \<^verbatim>\<open>try\<close> and throws nothing.
\<close>

fun processBlockWithChildren ::
    "nat \<Rightarrow> block \<Rightarrow> 'r client \<Rightarrow> string option \<Rightarrow> 'r world \<Rightarrow> (simple_block list \<times> 'r world) option"
  and processChildren ::
    "nat \<Rightarrow> block list \<Rightarrow> 'r client \<Rightarrow> string \<Rightarrow> simple_block list \<Rightarrow> 'r world
       \<Rightarrow> (simple_block list \<times> error option \<times> 'r world) option"
where
  "processBlockWithChildren 0 b cl parentId w = None"
| "processBlockWithChildren (Suc n) b cl parentId w =
     (let results = [block_record b parentId] in
      if has_children b then
        (case await (BlocksChildrenList (block_id b)) (blocks_children_list cl (block_id b)) w of
           (Inr childrenResponse, w1) \<Rightarrow>
             (case processChildren n (resp_results childrenResponse) cl (block_id b) results w1 of
                None \<Rightarrow> None
              | Some (pushed, None, w2) \<Rightarrow> Some (pushed, w2)
              | Some (pushed, Some err, w2) \<Rightarrow>
                  Some (pushed,
                    console_error (''Error fetching children for block '' @ block_id b @ '':'') err w2))
         | (Inl err, w1) \<Rightarrow>
             Some (results,
               console_error (''Error fetching children for block '' @ block_id b @ '':'') err w1))
      else Some (results, w))"
| "processChildren n [] cl parentId results w = Some (results, None, w)"
| "processChildren n (childBlock # rest) cl parentId results w =
     (case processBlockWithChildren n childBlock cl (Some parentId) w of
        None \<Rightarrow> None
      | Some (childResults, w') \<Rightarrow>
          (case spread_push (arg_limit w') results childResults of
             Inl err \<Rightarrow> Some (results, Some err, w')
           | Inr pushed \<Rightarrow> processChildren n rest cl parentId pushed w'))"

definition getTextFromBlock ::
    "nat \<Rightarrow> block \<Rightarrow> 'r client \<Rightarrow> 'r world \<Rightarrow> (simple_block list \<times> 'r world) option" where
  "getTextFromBlock n b cl w = processBlockWithChildren n b cl None w"

section \<open>The client facade\<close>

record notion_config =
  token :: string
  config_pageId :: string

record 'r notion_wrapper =
  client :: "'r client"
  pageId :: string

text \<open>The constructor; \<open>new_client\<close> stands for \<^verbatim>\<open>new Client({ auth: ... })\<close>.\<close>

definition new_wrapper :: "(string \<Rightarrow> 'r client) \<Rightarrow> notion_config \<Rightarrow> 'r notion_wrapper" where
  "new_wrapper new_client config = \<lparr>client = new_client (token config), pageId = config_pageId config\<rparr>"

definition setPageId :: "string \<Rightarrow> 'r notion_wrapper \<Rightarrow> 'r notion_wrapper" where
  "setPageId p self = self\<lparr>pageId := p\<rparr>"

definition getPageId :: "'r notion_wrapper \<Rightarrow> string" where
  "getPageId self = pageId self"

text \<open>Every asynchronous method returns its outcome (\<open>Inl\<close> the error it rethrows),
  the facade object and the world after the call.\<close>

definition getPage ::
    "'r notion_wrapper \<Rightarrow> 'r world \<Rightarrow> (error + page) \<times> 'r notion_wrapper \<times> 'r world" where
  "getPage self w =
     (case await (PagesRetrieve (pageId self)) (pages_retrieve (client self) (pageId self)) w of
        (Inr response, w1) \<Rightarrow> (Inr response, self, w1)
      | (Inl err, w1) \<Rightarrow> (Inl err, self, console_error ''Error retrieving Notion page:'' err w1))"

text \<open>The single child that \<^verbatim>\<open>addText\<close> appends, and the body of \<^verbatim>\<open>updateBlock\<close>.\<close>

definition paragraph_of :: "string \<Rightarrow> paragraph_input" where
  "paragraph_of txt =
     \<lparr>input_rich_text = [\<lparr>input_type = ''text'', input_text = \<lparr>content = txt\<rparr>\<rparr>]\<rparr>"

definition addText ::
    "string \<Rightarrow> string option \<Rightarrow> 'r notion_wrapper \<Rightarrow> 'r world
       \<Rightarrow> (error + list_response) \<times> 'r notion_wrapper \<times> 'r world" where
  "addText txt parentBlock self w =
     (let target = or_string parentBlock (pageId self);
          children = [\<lparr>new_object = ''block'', new_type = ''paragraph'',
                       new_paragraph = paragraph_of txt\<rparr>] in
      case await (BlocksChildrenAppend target children)
             (blocks_children_append (client self) target children) w of
        (Inr response, w1) \<Rightarrow> (Inr response, self, w1)
      | (Inl err, w1) \<Rightarrow> (Inl err, self, console_error ''Error adding text to Notion:'' err w1))"

definition deleteBlock ::
    "string \<Rightarrow> 'r notion_wrapper \<Rightarrow> 'r world \<Rightarrow> (error + block) \<times> 'r notion_wrapper \<times> 'r world" where
  "deleteBlock bid self w =
     (case await (BlocksDelete bid) (blocks_delete (client self) bid) w of
        (Inr response, w1) \<Rightarrow> (Inr response, self, w1)
      | (Inl err, w1) \<Rightarrow> (Inl err, self, console_error ''Error deleting block from Notion:'' err w1))"

definition unsupported_warning :: "string \<Rightarrow> string" where
  "unsupported_warning ty =
     ''Block type '' @ ty @ '' is not supported for text updates. Only paragraph blocks can be updated.''"

definition updateBlock ::
    "string \<Rightarrow> string \<Rightarrow> 'r notion_wrapper \<Rightarrow> 'r world
       \<Rightarrow> (error + block) \<times> 'r notion_wrapper \<times> 'r world" where
  "updateBlock bid txt self w =
     (case await (BlocksRetrieve bid) (blocks_retrieve (client self) bid) w of
        (Inl err, w1) \<Rightarrow> (Inl err, self, console_error ''Error updating block in Notion:'' err w1)
      | (Inr blockInfo, w1) \<Rightarrow>
          (let w2 = (if block_type blockInfo \<noteq> ''paragraph''
                     then console_warn (unsupported_warning (block_type blockInfo)) w1 else w1) in
           case await (BlocksUpdate bid (paragraph_of txt))
                  (blocks_update (client self) bid (paragraph_of txt)) w2 of
             (Inr response, w3) \<Rightarrow> (Inr response, self, w3)
           | (Inl err, w3) \<Rightarrow>
               (Inl err, self, console_error ''Error updating block in Notion:'' err w3)))"

text \<open>The loop of \<^verbatim>\<open>getPageBlocks\<close> over the top-level blocks, with \<open>blocks\<close> the array
  pushed so far: it returns the array, or the error a push threw. The \<^verbatim>\<open>try\<close> block of
  \<^verbatim>\<open>getPageBlocks\<close> encloses the request and the loop; its \<^verbatim>\<open>catch\<close> writes to the
  console and rethrows.\<close>

fun processTopLevel ::
    "nat \<Rightarrow> block list \<Rightarrow> 'r client \<Rightarrow> simple_block list \<Rightarrow> 'r world
       \<Rightarrow> ((error + simple_block list) \<times> 'r world) option" where
  "processTopLevel n [] cl blocks w = Some (Inr blocks, w)"
| "processTopLevel n (b # rest) cl blocks w =
     (case getTextFromBlock n b cl w of
        None \<Rightarrow> None
      | Some (processedBlocks, w') \<Rightarrow>
          (case spread_push (arg_limit w') blocks processedBlocks of
             Inl err \<Rightarrow> Some (Inl err, w')
           | Inr pushed \<Rightarrow> processTopLevel n rest cl pushed w'))"

definition getPageBlocks ::
    "nat \<Rightarrow> 'r notion_wrapper \<Rightarrow> 'r world
       \<Rightarrow> ((error + simple_block list) \<times> 'r notion_wrapper \<times> 'r world) option" where
  "getPageBlocks n self w =
     (case await (BlocksChildrenList (pageId self))
             (blocks_children_list (client self) (pageId self)) w of
        (Inr response, w1) \<Rightarrow>
          (case processTopLevel n (resp_results response) (client self) [] w1 of
             None \<Rightarrow> None
           | Some (Inr blocks, w2) \<Rightarrow> Some (Inr blocks, self, w2)
           | Some (Inl err, w2) \<Rightarrow>
               Some (Inl err, self,
                 console_error ''Error retrieving page blocks from Notion:'' err w2))
      | (Inl err, w1) \<Rightarrow>
          Some (Inl err, self, console_error ''Error retrieving page blocks from Notion:'' err w1))"

section \<open>The traversal order in the words of the specification\<close>

text \<open>
  The specification describes the output of the flattener as the block's own record
  followed by each child's full flattened sequence, in the order the children were
  returned. \<open>flattenEach\<close> is that description for a list of blocks that share a
  parent: the sequences of the blocks, one after the other, each block flattened in the
  world its predecessor left, with nothing left out. It is compared below with the loops
  of the code, which push onto an array.
\<close>

fun flattenEach ::
    "nat \<Rightarrow> block list \<Rightarrow> 'r client \<Rightarrow> string option \<Rightarrow> 'r world
       \<Rightarrow> (simple_block list \<times> 'r world) option" where
  "flattenEach n [] cl parentId w = Some ([], w)"
| "flattenEach n (b # rest) cl parentId w =
     (case processBlockWithChildren n b cl parentId w of
        None \<Rightarrow> None
      | Some (first, w1) \<Rightarrow>
          (case flattenEach n rest cl parentId w1 of
             None \<Rightarrow> None
           | Some (others, w2) \<Rightarrow> Some (first @ others, w2)))"

text \<open>The parent of every record is among the identifiers \<open>seen\<close> before it.\<close>

fun parents_seen :: "string list \<Rightarrow> simple_block list \<Rightarrow> bool" where
  "parents_seen seen [] = True"
| "parents_seen seen (r # rs) =
     ((case parentBlockId r of None \<Rightarrow> True | Some p \<Rightarrow> p \<in> set seen)
      \<and> parents_seen (blockId r # seen) rs)"

text \<open>The shape of what the flattener returns for a block: the block's own record, then
  records that all carry a parent, each parent being the block or an earlier record.\<close>

definition flat_shape :: "block \<Rightarrow> string option \<Rightarrow> simple_block list \<Rightarrow> bool" where
  "flat_shape b pid rs =
     (\<exists>rest. rs = block_record b pid # rest \<and> parents_seen [block_id b] rest
        \<and> (\<forall>r \<in> set rest. parentBlockId r \<noteq> None))"

text \<open>The remote tree is acyclic when some rank of the block identifiers decreases from
  every block to each child the service returns for it, whatever the remote state.\<close>

definition ranked :: "'r client \<Rightarrow> (string \<Rightarrow> nat) \<Rightarrow> bool" where
  "ranked cl rank =
     (\<forall>bid r resp r'. blocks_children_list cl bid r = (Inr resp, r') \<longrightarrow>
        (\<forall>k \<in> set (resp_results resp). rank (block_id k) < rank bid))"

section \<open>A caller of the facade\<close>

text \<open>A program that uses the facade calls its methods one after the other on one
  object. \<open>invoke\<close> is one such call, keeping the object and the world and dropping
  the value returned; \<open>invoke_all\<close> is a sequence of calls.\<close>

datatype facade_call =
    CallSetPageId string
  | CallGetPageId
  | CallGetPage
  | CallAddText string "string option"
  | CallDeleteBlock string
  | CallUpdateBlock string string
  | CallGetPageBlocks

fun invoke ::
    "nat \<Rightarrow> facade_call \<Rightarrow> 'r notion_wrapper \<Rightarrow> 'r world \<Rightarrow> ('r notion_wrapper \<times> 'r world) option"
where
  "invoke n (CallSetPageId p) self w = Some (setPageId p self, w)"
| "invoke n CallGetPageId self w = Some (self, w)"
| "invoke n CallGetPage self w = Some (snd (getPage self w))"
| "invoke n (CallAddText txt parentBlock) self w = Some (snd (addText txt parentBlock self w))"
| "invoke n (CallDeleteBlock bid) self w = Some (snd (deleteBlock bid self w))"
| "invoke n (CallUpdateBlock bid txt) self w = Some (snd (updateBlock bid txt self w))"
| "invoke n CallGetPageBlocks self w = map_option snd (getPageBlocks n self w)"

fun invoke_all ::
    "nat \<Rightarrow> facade_call list \<Rightarrow> 'r notion_wrapper \<Rightarrow> 'r world
       \<Rightarrow> ('r notion_wrapper \<times> 'r world) option" where
  "invoke_all n [] self w = Some (self, w)"
| "invoke_all n (c # cs) self w =
     (case invoke n c self w of
        None \<Rightarrow> None
      | Some (self', w') \<Rightarrow> invoke_all n cs self' w')"

text \<open>The page identifier most recently set by a sequence of calls, \<open>cur\<close> when it
  sets none.\<close>

fun last_set :: "string \<Rightarrow> facade_call list \<Rightarrow> string" where
  "last_set cur [] = cur"
| "last_set cur (CallSetPageId p # cs) = last_set p cs"
| "last_set cur (c # cs) = last_set cur cs"

section \<open>A concrete remote service\<close>

text \<open>
  A small remote service for evaluating the operations: page \<open>P\<close> holds paragraph \<open>A\<close>
  (no children) and paragraph \<open>B\<close>, whose only child is paragraph \<open>C\<close>; page \<open>Q\<close> holds
  \<open>A\<close>, then a paragraph \<open>F\<close> that declares children the service refuses to list, then
  \<open>B\<close>; block \<open>D\<close> holds \<open>B\<close> and \<open>A\<close>. Retrieving a block returns a heading, and the
  service rejects every update. The engine accepts 65536 arguments in a call.
\<close>

definition paragraph_block :: "string \<Rightarrow> string \<Rightarrow> bool \<Rightarrow> block" where
  "paragraph_block i txt kids =
     \<lparr>block_id = i, block_type = ''paragraph'', has_children = kids,
      payload = Some \<lparr>rich_text = Some [\<lparr>plain_text = Some txt\<rparr>]\<rparr>\<rparr>"

definition scenario_children :: "string \<Rightarrow> unit \<Rightarrow> (error + list_response) \<times> unit" where
  "scenario_children bid r =
     (if bid = ''P'' then
        (Inr \<lparr>resp_results = [paragraph_block ''A'' ''Intro'' False, paragraph_block ''B'' ''Details'' True]\<rparr>, r)
      else if bid = ''B'' then
        (Inr \<lparr>resp_results = [paragraph_block ''C'' ''Sub'' False]\<rparr>, r)
      else if bid = ''Q'' then
        (Inr \<lparr>resp_results = [paragraph_block ''A'' ''Intro'' False, paragraph_block ''F'' ''Locked'' True,
                               paragraph_block ''B'' ''Details'' True]\<rparr>, r)
      else if bid = ''D'' then
        (Inr \<lparr>resp_results = [paragraph_block ''B'' ''Details'' True, paragraph_block ''A'' ''Intro'' False]\<rparr>, r)
      else (Inl (ServiceError ''object_not_found''), r))"

definition scenario_client :: "unit client" where
  "scenario_client =
     \<lparr>pages_retrieve = (\<lambda>p r. (Inr (PageObject p), r)),
      blocks_children_append = (\<lambda>target children r. (Inr \<lparr>resp_results = []\<rparr>, r)),
      blocks_children_list = scenario_children,
      blocks_delete = (\<lambda>bid r. (Inl (ServiceError ''object_not_found''), r)),
      blocks_retrieve =
        (\<lambda>bid r. (Inr \<lparr>block_id = bid, block_type = ''heading_1'', has_children = False,
                          payload = Some \<lparr>rich_text = Some []\<rparr>\<rparr>, r)),
      blocks_update = (\<lambda>bid body r. (Inl (ServiceError ''validation_error''), r))\<rparr>"

definition scenario_world :: "unit world" where
  "scenario_world = \<lparr>remote = (), trace = [], console = [], arg_limit = 65536\<rparr>"

definition scenario_wrapper :: "string \<Rightarrow> unit notion_wrapper" where
  "scenario_wrapper p =
     new_wrapper (\<lambda>tok. scenario_client) \<lparr>token = ''secret'', config_pageId = p\<rparr>"

definition scenario_rank :: "string \<Rightarrow> nat" where
  "scenario_rank bid =
     (if bid = ''P'' \<or> bid = ''Q'' \<or> bid = ''D'' then 2 else if bid = ''B'' then 1 else 0)"

section \<open>A subtree larger than the argument limit\<close>

text \<open>
  For an engine that accepts \<open>Suc k\<close> arguments: block \<open>Y\<close> holds \<open>Suc k\<close> paragraphs
  without children, so that its flattened sequence has \<open>Suc k + 1\<close> records. Block \<open>X\<close>
  holds \<open>Y\<close> and \<open>A\<close>; block \<open>Z\<close> holds \<open>F\<close>, whose children the service refuses to
  list, then \<open>Y\<close> and \<open>A\<close>.
\<close>

definition leaves :: "nat \<Rightarrow> block list" where
  "leaves k = map (\<lambda>i. paragraph_block (replicate (Suc i) CHR ''l'') ''Leaf'' False) [0..<k]"

definition overflow_children :: "nat \<Rightarrow> string \<Rightarrow> unit \<Rightarrow> (error + list_response) \<times> unit" where
  "overflow_children k bid r =
     (if bid = ''X'' then
        (Inr \<lparr>resp_results = [paragraph_block ''Y'' ''Big'' True, paragraph_block ''A'' ''Intro'' False]\<rparr>, r)
      else if bid = ''Z'' then
        (Inr \<lparr>resp_results = [paragraph_block ''F'' ''Locked'' True, paragraph_block ''Y'' ''Big'' True,
                               paragraph_block ''A'' ''Intro'' False]\<rparr>, r)
      else if bid = ''Y'' then (Inr \<lparr>resp_results = leaves (Suc k)\<rparr>, r)
      else (Inl (ServiceError ''object_not_found''), r))"

definition overflow_client :: "nat \<Rightarrow> unit client" where
  "overflow_client k = scenario_client\<lparr>blocks_children_list := overflow_children k\<rparr>"

definition overflow_world :: "nat \<Rightarrow> unit world" where
  "overflow_world k = \<lparr>remote = (), trace = [], console = [], arg_limit = Suc k\<rparr>"

definition overflow_wrapper :: "nat \<Rightarrow> string \<Rightarrow> unit notion_wrapper" where
  "overflow_wrapper k p =
     new_wrapper (\<lambda>tok. overflow_client k) \<lparr>token = ''secret'', config_pageId = p\<rparr>"

text \<open>The records of the paragraphs that \<open>Y\<close> holds.\<close>

definition leaf_records :: "nat \<Rightarrow> simple_block list" where
  "leaf_records k =
     map (\<lambda>i. \<lparr>blockId = replicate (Suc i) CHR ''l'', text_ = ''Leaf'', blockType = ''paragraph'',
                parentBlockId = Some ''Y''\<rparr>) [0..<k]"

section \<open>Auxiliary facts\<close>

lemmas processBlockWithChildren_Suc = processBlockWithChildren.simps(2)

declare processBlockWithChildren.simps(2) [simp del]

lemma join_concat: "sep = [] \<Longrightarrow> join sep xs = concat xs"
  by (induction sep xs rule: join.induct) simp_all

lemma join_empty_sep: "join [] xs = concat xs"
  by (simp add: join_concat)

lemma or_string_empty: "or_string v [] = (case v of None \<Rightarrow> [] | Some s \<Rightarrow> s)"
  by (cases v) (simp_all add: or_string_def)

text \<open>No operation changes the argument limit.\<close>

lemma await_arg_limit: "await req m w = (res, w') \<Longrightarrow> arg_limit w' = arg_limit w"
  by (auto simp: await_def split: prod.splits)

lemma console_error_arg_limit [simp]: "arg_limit (console_error msg err w) = arg_limit w"
  by (simp add: console_error_def)

text \<open>A larger depth bound does not change a result that a smaller one gave.\<close>

lemma processChildren_fuel_step:
  assumes step: "\<And>b pid w r. processBlockWithChildren n b cl pid w = Some r \<Longrightarrow>
                   processBlockWithChildren m b cl pid w = Some r"
  shows "processChildren n kids cl p acc w = Some r \<Longrightarrow>
           processChildren m kids cl p acc w = Some r"
proof (induction kids arbitrary: acc w)
  case Nil
  then show ?case by simp
next
  case (Cons k kids)
  from Cons.prems obtain first w1 where
    a: "processBlockWithChildren n k cl (Some p) w = Some (first, w1)"
    by (auto split: option.splits)
  show ?case
  proof (cases "spread_push (arg_limit w1) acc first")
    case (Inl err)
    with Cons.prems a step [OF a] show ?thesis by simp
  next
    case (Inr pushed)
    with Cons.prems a have "processChildren n kids cl p pushed w1 = Some r" by simp
    from Cons.IH [OF this] Inr step [OF a] show ?thesis by simp
  qed
qed

lemma fuel_Suc:
  "processBlockWithChildren n b cl pid w = Some r \<Longrightarrow>
      processBlockWithChildren (Suc n) b cl pid w = Some r"
proof (induction n arbitrary: b pid w r)
  case 0
  then show ?case by simp
next
  case (Suc n)
  have kids: "\<And>kids p acc w r. processChildren n kids cl p acc w = Some r \<Longrightarrow>
           processChildren (Suc n) kids cl p acc w = Some r"
    using processChildren_fuel_step [of n cl "Suc n"] Suc.IH by blast
  show ?case
  proof (cases "has_children b")
    case False
    with Suc.prems show ?thesis by (simp add: processBlockWithChildren_Suc)
  next
    case True
    obtain res w1 where
      aw: "await (BlocksChildrenList (block_id b)) (blocks_children_list cl (block_id b)) w = (res, w1)"
      by (cases "await (BlocksChildrenList (block_id b)) (blocks_children_list cl (block_id b)) w")
    show ?thesis
    proof (cases res)
      case (Inl err)
      with True aw Suc.prems show ?thesis
        by (simp add: processBlockWithChildren_Suc)
    next
      case (Inr resp)
      with True aw Suc.prems obtain q where
        q: "processChildren n (resp_results resp) cl (block_id b) [block_record b pid] w1 = Some q"
        by (auto simp: processBlockWithChildren_Suc split: option.splits)
      from kids [OF q] q True aw Inr Suc.prems show ?thesis
        by (simp add: processBlockWithChildren_Suc [of "Suc n"] processBlockWithChildren_Suc [of n])
    qed
  qed
qed

lemma fuel_mono:
  "processBlockWithChildren n b cl pid w = Some r \<Longrightarrow> n \<le> m \<Longrightarrow>
      processBlockWithChildren m b cl pid w = Some r"
  by (induction m) (auto simp: le_Suc_eq intro: fuel_Suc)

text \<open>Parents before children.\<close>

lemma parents_seen_mono:
  "parents_seen seen rs \<Longrightarrow> set seen \<subseteq> set seen' \<Longrightarrow> parents_seen seen' rs"
proof (induction rs arbitrary: seen seen')
  case Nil
  show ?case by simp
next
  case (Cons r rs)
  from Cons.prems have "parents_seen (blockId r # seen') rs"
    using Cons.IH [of "blockId r # seen" "blockId r # seen'"] by auto
  with Cons.prems show ?case by (auto split: option.splits)
qed

lemma parents_seen_append:
  "parents_seen seen (xs @ ys) =
     (parents_seen seen xs \<and> parents_seen (rev (map blockId xs) @ seen) ys)"
  by (induction xs arbitrary: seen) auto

lemma parents_seen_nth:
  "parents_seen seen rs \<Longrightarrow> i < length rs \<Longrightarrow> parentBlockId (rs ! i) = Some p \<Longrightarrow>
     p \<in> set seen \<or> (\<exists>j<i. blockId (rs ! j) = p)"
proof (induction rs arbitrary: seen i)
  case Nil
  then show ?case by simp
next
  case (Cons r rs)
  show ?case
  proof (cases i)
    case 0
    with Cons.prems show ?thesis by simp
  next
    case (Suc k)
    with Cons.prems have "p \<in> set (blockId r # seen) \<or> (\<exists>j<k. blockId (rs ! j) = p)"
      using Cons.IH [of "blockId r # seen" k] by simp
    then show ?thesis
    proof (elim disjE exE conjE)
      assume "p \<in> set (blockId r # seen)"
      then show ?thesis using Suc by (cases "p = blockId r") (auto intro: exI [of _ 0])
    next
      fix j assume "j < k" "blockId (rs ! j) = p"
      then show ?thesis using Suc by (auto intro: exI [of _ "Suc j"])
    qed
  qed
qed

text \<open>What a loop has pushed beyond its starting array: records whose parents are the given
  parent or earlier records, and, at the top level, parentless records of the blocks.\<close>

lemma flat_shape_seen:
  assumes "flat_shape b pid first" and "case pid of None \<Rightarrow> True | Some p \<Rightarrow> p \<in> set seen"
  shows "parents_seen seen first"
    and "\<forall>r \<in> set first. parentBlockId r = None \<longrightarrow> pid = None \<and> r = block_record b None"
proof -
  from assms(1) obtain rest where
    first: "first = block_record b pid # rest" and
    rest: "parents_seen [block_id b] rest" and
    inner: "\<forall>r \<in> set rest. parentBlockId r \<noteq> None"
    by (auto simp: flat_shape_def)
  have "parents_seen (block_id b # seen) rest"
    using parents_seen_mono [OF rest] by auto
  then show "parents_seen seen first"
    using assms(2) first by (auto simp: block_record_def split: option.splits)
  show "\<forall>r \<in> set first. parentBlockId r = None \<longrightarrow> pid = None \<and> r = block_record b None"
    using first inner by (auto simp: block_record_def)
qed

lemma processChildren_shape_step:
  assumes step: "\<And>b pid w rs w'. processBlockWithChildren n b cl pid w = Some (rs, w') \<Longrightarrow>
                   flat_shape b pid rs"
  shows "processChildren n kids cl p acc w = Some (rs, thrown, w') \<Longrightarrow> p \<in> set seen \<Longrightarrow>
           \<exists>ext. rs = acc @ ext \<and> parents_seen seen ext
             \<and> (\<forall>r \<in> set ext. parentBlockId r \<noteq> None)"
proof (induction kids arbitrary: acc w seen)
  case Nil
  then show ?case by simp
next
  case (Cons k kids)
  from Cons.prems(1) obtain first w1 where
    a: "processBlockWithChildren n k cl (Some p) w = Some (first, w1)"
    by (auto split: option.splits)
  show ?case
  proof (cases "spread_push (arg_limit w1) acc first")
    case (Inl err)
    with Cons.prems(1) a show ?thesis by simp
  next
    case (Inr pushed)
    then have pushed: "pushed = acc @ first"
      by (auto simp: spread_push_def split: if_splits)
    from Cons.prems(1) a Inr have
      b: "processChildren n kids cl p pushed w1 = Some (rs, thrown, w')" by simp
    have seen': "p \<in> set (rev (map blockId first) @ seen)" using Cons.prems(2) by simp
    from Cons.IH [OF b seen'] obtain ext where
      ext: "rs = pushed @ ext" "parents_seen (rev (map blockId first) @ seen) ext"
        "\<forall>r \<in> set ext. parentBlockId r \<noteq> None"
      by blast
    have sh: "flat_shape k (Some p) first" by (rule step [OF a])
    have f1: "parents_seen seen first"
      by (rule flat_shape_seen(1) [OF sh]) (use Cons.prems(2) in simp)
    have f2: "\<forall>r \<in> set first. parentBlockId r \<noteq> None"
      using flat_shape_seen(2) [OF sh, of seen] Cons.prems(2) by auto
    have "rs = acc @ (first @ ext)" using ext(1) pushed by simp
    moreover have "parents_seen seen (first @ ext)"
      using f1 ext(2) by (simp add: parents_seen_append)
    moreover have "\<forall>r \<in> set (first @ ext). parentBlockId r \<noteq> None"
      using f2 ext(3) by auto
    ultimately show ?thesis by blast
  qed
qed

lemma process_shape:
  "processBlockWithChildren n b cl pid w = Some (rs, w') \<Longrightarrow> flat_shape b pid rs"
proof (induction n arbitrary: b pid w rs w')
  case 0
  then show ?case by simp
next
  case (Suc n)
  show ?case
  proof (cases "has_children b")
    case False
    with Suc.prems show ?thesis
      by (auto simp: processBlockWithChildren_Suc flat_shape_def)
  next
    case True
    obtain res w1 where
      aw: "await (BlocksChildrenList (block_id b)) (blocks_children_list cl (block_id b)) w = (res, w1)"
      by (cases "await (BlocksChildrenList (block_id b)) (blocks_children_list cl (block_id b)) w")
    show ?thesis
    proof (cases res)
      case (Inl err)
      with True aw Suc.prems show ?thesis
        by (auto simp: processBlockWithChildren_Suc flat_shape_def)
    next
      case (Inr resp)
      with True aw Suc.prems obtain thrown w2 where
        pc: "processChildren n (resp_results resp) cl (block_id b) [block_record b pid] w1
               = Some (rs, thrown, w2)"
        by (auto simp: processBlockWithChildren_Suc split: option.splits)
      have "\<exists>ext. rs = [block_record b pid] @ ext \<and> parents_seen [block_id b] ext
             \<and> (\<forall>r \<in> set ext. parentBlockId r \<noteq> None)"
        by (rule processChildren_shape_step [OF Suc.IH pc]) simp_all
      then show ?thesis by (auto simp: flat_shape_def)
    qed
  qed
qed

lemma processTopLevel_shape:
  "processTopLevel n bs cl acc w = Some (Inr rs, w') \<Longrightarrow>
     \<exists>ext. rs = acc @ ext \<and> parents_seen seen ext
       \<and> (\<forall>r \<in> set ext. parentBlockId r = None \<longrightarrow> r \<in> (\<lambda>b. block_record b None) ` set bs)"
proof (induction bs arbitrary: acc w seen)
  case Nil
  then show ?case by simp
next
  case (Cons b bs)
  from Cons.prems obtain first w1 where
    a: "processBlockWithChildren n b cl None w = Some (first, w1)"
    by (auto simp: getTextFromBlock_def split: option.splits)
  show ?case
  proof (cases "spread_push (arg_limit w1) acc first")
    case (Inl err)
    with Cons.prems a show ?thesis by (simp add: getTextFromBlock_def)
  next
    case (Inr pushed)
    then have pushed: "pushed = acc @ first"
      by (auto simp: spread_push_def split: if_splits)
    from Cons.prems a Inr have
      b: "processTopLevel n bs cl pushed w1 = Some (Inr rs, w')"
      by (simp add: getTextFromBlock_def)
    from Cons.IH [OF b, of "rev (map blockId first) @ seen"] obtain ext where
      ext: "rs = pushed @ ext" "parents_seen (rev (map blockId first) @ seen) ext"
        "\<forall>r \<in> set ext. parentBlockId r = None \<longrightarrow> r \<in> (\<lambda>b. block_record b None) ` set bs"
      by blast
    have sh: "flat_shape b None first" by (rule process_shape [OF a])
    have f1: "parents_seen seen first"
      by (rule flat_shape_seen(1) [OF sh]) simp
    have f2: "\<forall>r \<in> set first. parentBlockId r = None \<longrightarrow> r = block_record b None"
      using flat_shape_seen(2) [OF sh, of seen] by auto
    have "rs = acc @ (first @ ext)" using ext(1) pushed by simp
    moreover have "parents_seen seen (first @ ext)"
      using f1 ext(2) by (simp add: parents_seen_append)
    moreover have "\<forall>r \<in> set (first @ ext). parentBlockId r = None \<longrightarrow>
        r \<in> (\<lambda>b. block_record b None) ` set (b # bs)"
      using f2 ext(3) by auto
    ultimately show ?thesis by blast
  qed
qed

lemma flat_shape_top:
  assumes "flat_shape b None rs"
  shows "parents_seen [] rs" and "\<And>i. i < length rs \<Longrightarrow> parentBlockId (rs ! i) = None \<Longrightarrow> i = 0"
proof -
  from assms obtain rest where
    rs: "rs = block_record b None # rest" and
    rest: "parents_seen [block_id b] rest" and
    inner: "\<forall>r \<in> set rest. parentBlockId r \<noteq> None"
    by (auto simp: flat_shape_def)
  show "parents_seen [] rs" using rs rest by (simp add: block_record_def)
  fix i assume "i < length rs" "parentBlockId (rs ! i) = None"
  then show "i = 0" using rs inner by (cases i) auto
qed

lemma processChildren_arg_limit_step:
  assumes step: "\<And>b pid w rs w'. processBlockWithChildren n b cl pid w = Some (rs, w') \<Longrightarrow>
                   arg_limit w' = arg_limit w"
  shows "processChildren n kids cl p acc w = Some (rs, thrown, w') \<Longrightarrow>
           arg_limit w' = arg_limit w"
proof (induction kids arbitrary: acc w)
  case Nil
  then show ?case by simp
next
  case (Cons k kids)
  from Cons.prems obtain first w1 where
    a: "processBlockWithChildren n k cl (Some p) w = Some (first, w1)"
    by (auto split: option.splits)
  show ?case
  proof (cases "spread_push (arg_limit w1) acc first")
    case (Inl err)
    with Cons.prems a step [OF a] show ?thesis by simp
  next
    case (Inr pushed)
    with Cons.prems a have "processChildren n kids cl p pushed w1 = Some (rs, thrown, w')"
      by simp
    from Cons.IH [OF this] step [OF a] show ?thesis by simp
  qed
qed

lemma process_arg_limit:
  "processBlockWithChildren n b cl pid w = Some (rs, w') \<Longrightarrow> arg_limit w' = arg_limit w"
proof (induction n arbitrary: b pid w rs w')
  case 0
  then show ?case by simp
next
  case (Suc n)
  show ?case
  proof (cases "has_children b")
    case False
    with Suc.prems show ?thesis by (simp add: processBlockWithChildren_Suc)
  next
    case True
    obtain res w1 where
      aw: "await (BlocksChildrenList (block_id b)) (blocks_children_list cl (block_id b)) w = (res, w1)"
      by (cases "await (BlocksChildrenList (block_id b)) (blocks_children_list cl (block_id b)) w")
    note l1 = await_arg_limit [OF aw]
    show ?thesis
    proof (cases res)
      case (Inl err)
      with True aw Suc.prems l1 show ?thesis
        by (auto simp: processBlockWithChildren_Suc)
    next
      case (Inr resp)
      with True aw Suc.prems obtain q where
        q: "processChildren n (resp_results resp) cl (block_id b) [block_record b pid] w1 = Some q"
        by (cases "processChildren n (resp_results resp) cl (block_id b) [block_record b pid] w1")
          (auto simp: processBlockWithChildren_Suc)
      obtain pushed thrown w2 where q': "q = (pushed, thrown, w2)" by (cases q)
      from processChildren_arg_limit_step [OF Suc.IH q [unfolded q']]
      have l2: "arg_limit w2 = arg_limit w1" by simp
      have "arg_limit w' = arg_limit w2"
        using True aw Inr Suc.prems q q'
        by (cases thrown) (auto simp: processBlockWithChildren_Suc)
      with l1 l2 show ?thesis by simp
    qed
  qed
qed

lemma flattenEach_arg_limit:
  "flattenEach n bs cl pid w = Some (rs, w') \<Longrightarrow> arg_limit w' = arg_limit w"
proof (induction bs arbitrary: w rs)
  case Nil
  then show ?case by simp
next
  case (Cons b bs)
  from Cons.prems obtain first w1 others where
    a: "processBlockWithChildren n b cl pid w = Some (first, w1)" and
    b: "flattenEach n bs cl pid w1 = Some (others, w')"
    by (auto split: option.splits)
  from process_arg_limit [OF a] Cons.IH [OF b] show ?case by simp
qed

text \<open>While the sequences stay within the argument limit, the loops of the code compute the
  sequences of \<open>flattenEach\<close>, appended to what was pushed before.\<close>

lemma processChildren_flattenEach:
  "flattenEach n kids cl (Some p) w = Some (rs, w') \<Longrightarrow> length rs \<le> arg_limit w \<Longrightarrow>
     processChildren n kids cl p acc w = Some (acc @ rs, None, w')"
proof (induction kids arbitrary: acc w rs)
  case Nil
  then show ?case by simp
next
  case (Cons k kids)
  from Cons.prems(1) obtain first w1 others where
    a: "processBlockWithChildren n k cl (Some p) w = Some (first, w1)" and
    b: "flattenEach n kids cl (Some p) w1 = Some (others, w')" and
    rs: "rs = first @ others"
    by (auto split: option.splits)
  have l: "arg_limit w1 = arg_limit w" by (rule process_arg_limit [OF a])
  have "length others \<le> arg_limit w1" using Cons.prems(2) rs l by simp
  from Cons.IH [OF b this, of "acc @ first"] a rs l Cons.prems(2) show ?case
    by (simp add: spread_push_def)
qed

lemma processTopLevel_flattenEach:
  "flattenEach n bs cl None w = Some (rs, w') \<Longrightarrow> length rs \<le> arg_limit w \<Longrightarrow>
     processTopLevel n bs cl acc w = Some (Inr (acc @ rs), w')"
proof (induction bs arbitrary: acc w rs)
  case Nil
  then show ?case by simp
next
  case (Cons b bs)
  from Cons.prems(1) obtain first w1 others where
    a: "processBlockWithChildren n b cl None w = Some (first, w1)" and
    b: "flattenEach n bs cl None w1 = Some (others, w')" and
    rs: "rs = first @ others"
    by (auto split: option.splits)
  have l: "arg_limit w1 = arg_limit w" by (rule process_arg_limit [OF a])
  have "length others \<le> arg_limit w1" using Cons.prems(2) rs l by simp
  from Cons.IH [OF b this, of "acc @ first"] a rs l Cons.prems(2) show ?case
    by (simp add: spread_push_def getTextFromBlock_def)
qed

lemma flatten_preorder_within_limit:
  assumes "has_children b"
    and "await (BlocksChildrenList (block_id b)) (blocks_children_list cl (block_id b)) w
           = (Inr childrenResponse, w1)"
    and "flattenEach n (resp_results childrenResponse) cl (Some (block_id b)) w1
           = Some (descendants, w')"
    and "length descendants \<le> arg_limit w"
  shows "processBlockWithChildren (Suc n) b cl parentId w =
           Some (block_record b parentId # descendants, w')"
proof -
  have "length descendants \<le> arg_limit w1"
    using assms(4) await_arg_limit [OF assms(2)] by simp
  from processChildren_flattenEach [OF assms(3) this, of "[block_record b parentId]"] assms(1,2)
  show ?thesis by (simp add: processBlockWithChildren_Suc)
qed

lemma getPageBlocks_concat_within_limit:
  assumes "await (BlocksChildrenList (pageId self))
             (blocks_children_list (client self) (pageId self)) w = (Inr response, w1)"
    and "flattenEach n (resp_results response) (client self) None w1 = Some (blocks, w')"
    and "length blocks \<le> arg_limit w"
  shows "getPageBlocks n self w = Some (Inr blocks, self, w')"
proof -
  have "length blocks \<le> arg_limit w1"
    using assms(3) await_arg_limit [OF assms(1)] by simp
  from processTopLevel_flattenEach [OF assms(2) this, of "[]"] assms(1)
  show ?thesis by (simp add: getPageBlocks_def)
qed

text \<open>With an acyclic remote tree the flattener returns, once the depth bound exceeds the
  rank of the block.\<close>

lemma processChildren_total_step:
  assumes step: "\<And>b pid w. b \<in> set kids \<Longrightarrow> \<exists>r. processBlockWithChildren n b cl pid w = Some r"
  shows "\<exists>r. processChildren n kids cl p acc w = Some r"
  using step
proof (induction kids arbitrary: acc w)
  case Nil
  show ?case by simp
next
  case (Cons k kids)
  from Cons.prems [of k "Some p" w] obtain first w1 where
    a: "processBlockWithChildren n k cl (Some p) w = Some (first, w1)"
    by auto
  show ?case
  proof (cases "spread_push (arg_limit w1) acc first")
    case (Inl err)
    with a show ?thesis by simp
  next
    case (Inr pushed)
    have "\<exists>r. processChildren n kids cl p pushed w1 = Some r"
    proof (rule Cons.IH)
      fix b pid v
      assume "b \<in> set kids"
      then show "\<exists>r. processBlockWithChildren n b cl pid v = Some r"
        using Cons.prems [of b pid v] by simp
    qed
    with a Inr show ?thesis by simp
  qed
qed

lemma flatten_total:
  "ranked cl rank \<Longrightarrow> rank (block_id b) < n \<Longrightarrow>
     \<exists>r. processBlockWithChildren n b cl pid w = Some r"
proof (induction n arbitrary: b pid w)
  case 0
  then show ?case by simp
next
  case (Suc n)
  show ?case
  proof (cases "has_children b")
    case False
    then show ?thesis by (simp add: processBlockWithChildren_Suc)
  next
    case True
    obtain res w1 where
      aw: "await (BlocksChildrenList (block_id b)) (blocks_children_list cl (block_id b)) w = (res, w1)"
      by (cases "await (BlocksChildrenList (block_id b)) (blocks_children_list cl (block_id b)) w")
    show ?thesis
    proof (cases res)
      case (Inl err)
      with True aw show ?thesis by (simp add: processBlockWithChildren_Suc)
    next
      case (Inr resp)
      from aw Inr obtain r' where
        "blocks_children_list cl (block_id b) (remote w) = (Inr resp, r')"
        by (auto simp: await_def split: prod.splits)
      with Suc.prems(1) have
        "\<forall>k \<in> set (resp_results resp). rank (block_id k) < rank (block_id b)"
        unfolding ranked_def by blast
      with Suc.prems(2) have small: "\<forall>k \<in> set (resp_results resp). rank (block_id k) < n"
        by auto
      have "\<exists>r. processChildren n (resp_results resp) cl (block_id b) [block_record b pid] w1 = Some r"
        by (rule processChildren_total_step) (use small Suc.IH [OF Suc.prems(1)] in blast)
      then obtain pushed thrown w2 where
        "processChildren n (resp_results resp) cl (block_id b) [block_record b pid] w1
           = Some (pushed, thrown, w2)"
        by auto
      with True aw Inr show ?thesis
        by (cases thrown) (simp_all add: processBlockWithChildren_Suc)
    qed
  qed
qed

lemma processTopLevel_total:
  assumes "ranked cl rank" and "\<forall>b \<in> set bs. rank (block_id b) < n"
  shows "\<exists>r. processTopLevel n bs cl acc w = Some r"
  using assms(2)
proof (induction bs arbitrary: acc w)
  case Nil
  show ?case by simp
next
  case (Cons b bs)
  from flatten_total [OF assms(1), of b n None w] Cons.prems obtain first w1 where
    a: "processBlockWithChildren n b cl None w = Some (first, w1)"
    by auto
  show ?case
  proof (cases "spread_push (arg_limit w1) acc first")
    case (Inl err)
    with a show ?thesis by (simp add: getTextFromBlock_def)
  next
    case (Inr pushed)
    have "\<exists>r. processTopLevel n bs cl pushed w1 = Some r"
      by (rule Cons.IH) (use Cons.prems in simp)
    with a Inr show ?thesis by (simp add: getTextFromBlock_def)
  qed
qed

lemma getPageBlocks_total:
  assumes "ranked (client self) rank" and "rank (pageId self) \<le> n"
  shows "\<exists>r. getPageBlocks n self w = Some r"
proof -
  obtain res w1 where
    aw: "await (BlocksChildrenList (pageId self))
           (blocks_children_list (client self) (pageId self)) w = (res, w1)"
    by (cases "await (BlocksChildrenList (pageId self))
           (blocks_children_list (client self) (pageId self)) w")
  show ?thesis
  proof (cases res)
    case (Inl err)
    with aw show ?thesis by (simp add: getPageBlocks_def)
  next
    case (Inr resp)
    from aw Inr obtain r' where
      "blocks_children_list (client self) (pageId self) (remote w) = (Inr resp, r')"
      by (auto simp: await_def split: prod.splits)
    with assms have "\<forall>b \<in> set (resp_results resp). rank (block_id b) < n"
      unfolding ranked_def by fastforce
    from processTopLevel_total [OF assms(1) this, of "[]" w1] obtain out w2 where
      "processTopLevel n (resp_results resp) (client self) [] w1 = Some (out, w2)"
      by auto
    with aw Inr show ?thesis
      by (cases out) (simp_all add: getPageBlocks_def)
  qed
qed

lemma scenario_ranked: "ranked scenario_client scenario_rank"
  unfolding ranked_def
  by (auto simp: scenario_client_def scenario_children_def scenario_rank_def paragraph_block_def
      split: if_splits)

text \<open>A failed request for the children of a block: the console line, the block's own
  record, and the loops going on with the next sibling.\<close>

lemma children_fetch_failure_record:
  assumes "has_children b"
    and "await (BlocksChildrenList (block_id b)) (blocks_children_list cl (block_id b)) w
           = (Inl err, w1)"
  shows "processBlockWithChildren (Suc n) b cl parentId w =
           Some ([block_record b parentId],
             console_error (''Error fetching children for block '' @ block_id b @ '':'') err w1)"
  using assms by (simp add: processBlockWithChildren_Suc)

lemma children_fetch_failure_siblings:
  assumes "has_children b"
    and "await (BlocksChildrenList (block_id b)) (blocks_children_list cl (block_id b)) w
           = (Inl err, w1)"
    and "0 < arg_limit w"
  shows "processChildren (Suc n) (b # siblings) cl p results w =
           processChildren (Suc n) siblings cl p (results @ [block_record b (Some p)])
             (console_error (''Error fetching children for block '' @ block_id b @ '':'') err w1)"
    and "processTopLevel (Suc n) (b # siblings) cl blocks w =
           processTopLevel (Suc n) siblings cl (blocks @ [block_record b None])
             (console_error (''Error fetching children for block '' @ block_id b @ '':'') err w1)"
  using assms await_arg_limit [OF assms(2)]
  by (simp_all add: children_fetch_failure_record spread_push_def getTextFromBlock_def)

text \<open>Flattening the subtree that is larger than the argument limit.\<close>

lemma processChildren_leaves:
  assumes "\<forall>b \<in> set kids. \<not> has_children b" and "0 < arg_limit w"
  shows "processChildren (Suc n) kids cl p acc w =
           Some (acc @ map (\<lambda>b. block_record b (Some p)) kids, None, w)"
  using assms(1)
proof (induction kids arbitrary: acc)
  case Nil
  show ?case by simp
next
  case (Cons k kids)
  then have "processBlockWithChildren (Suc n) k cl (Some p) w = Some ([block_record k (Some p)], w)"
    by (simp add: processBlockWithChildren_Suc)
  with Cons assms(2) show ?case by (simp add: spread_push_def)
qed

lemma leaves_records:
  "map (\<lambda>b. block_record b (Some ''Y'')) (leaves k) = leaf_records k"
  by (simp add: leaves_def leaf_records_def block_record_def paragraph_block_def
      extractTextContent_def getPlainTextFromRichText_def or_string_def)

lemma flatten_Y:
  "processBlockWithChildren (Suc (Suc n)) (paragraph_block ''Y'' ''Big'' True) (overflow_client k) pid
     \<lparr>remote = (), trace = tr, console = cs, arg_limit = Suc k\<rparr> =
   Some (\<lparr>blockId = ''Y'', text_ = ''Big'', blockType = ''paragraph'', parentBlockId = pid\<rparr>
           # leaf_records (Suc k),
         \<lparr>remote = (), trace = tr @ [BlocksChildrenList ''Y''], console = cs, arg_limit = Suc k\<rparr>)"
proof -
  let ?w1 = "\<lparr>remote = (), trace = tr @ [BlocksChildrenList ''Y''], console = cs, arg_limit = Suc k\<rparr>"
  have aw: "await (BlocksChildrenList ''Y'') (blocks_children_list (overflow_client k) ''Y'')
              \<lparr>remote = (), trace = tr, console = cs, arg_limit = Suc k\<rparr>
            = (Inr \<lparr>resp_results = leaves (Suc k)\<rparr>, ?w1)"
    by (simp add: await_def overflow_client_def overflow_children_def)
  have nokids: "\<forall>b \<in> set (leaves (Suc k)). \<not> has_children b"
    by (auto simp: leaves_def paragraph_block_def)
  have loop: "processChildren (Suc n) (leaves (Suc k)) (overflow_client k) ''Y''
                [block_record (paragraph_block ''Y'' ''Big'' True) pid] ?w1 =
              Some ([block_record (paragraph_block ''Y'' ''Big'' True) pid]
                      @ map (\<lambda>b. block_record b (Some ''Y'')) (leaves (Suc k)), None, ?w1)"
    by (rule processChildren_leaves [OF nokids]) simp
  have rec: "block_record (paragraph_block ''Y'' ''Big'' True) pid =
               \<lparr>blockId = ''Y'', text_ = ''Big'', blockType = ''paragraph'', parentBlockId = pid\<rparr>"
    by (simp add: block_record_def paragraph_block_def extractTextContent_def
        getPlainTextFromRichText_def or_string_def)
  have y: "has_children (paragraph_block ''Y'' ''Big'' True)"
    "block_id (paragraph_block ''Y'' ''Big'' True) = ''Y''"
    by (simp_all add: paragraph_block_def)
  show ?thesis
    unfolding processBlockWithChildren_Suc [of "Suc n"]
    using aw loop by (simp add: y rec leaves_records del: processChildren.simps)
qed

lemma length_leaf_records [simp]: "length (leaf_records k) = k"
  by (simp add: leaf_records_def)

lemma record_A:
  "processBlockWithChildren (Suc n) (paragraph_block ''A'' ''Intro'' False) cl pid w =
     Some ([\<lparr>blockId = ''A'', text_ = ''Intro'', blockType = ''paragraph'', parentBlockId = pid\<rparr>], w)"
  by (simp add: processBlockWithChildren_Suc block_record_def paragraph_block_def
      extractTextContent_def getPlainTextFromRichText_def or_string_def)


text \<open>No asynchronous method assigns to a field of the facade object.\<close>

lemma method_self:
  "fst (snd (getPage self w)) = self"
  "fst (snd (addText txt parentBlock self w)) = self"
  "fst (snd (deleteBlock bid self w)) = self"
  "fst (snd (updateBlock bid txt self w)) = self"
  by (auto simp: getPage_def addText_def deleteBlock_def updateBlock_def Let_def
      split: prod.splits sum.splits)

lemma getPageBlocks_self:
  "getPageBlocks n self w = Some (res, self', w') \<Longrightarrow> self' = self"
  by (auto simp: getPageBlocks_def split: prod.splits sum.splits option.splits)

lemma invoke_self:
  "invoke n c self w = Some (self', w') \<Longrightarrow>
     self' = (case c of CallSetPageId p \<Rightarrow> setPageId p self | _ \<Rightarrow> self)"
proof (cases c)
  case CallGetPageBlocks
  assume "invoke n c self w = Some (self', w')"
  with CallGetPageBlocks show ?thesis
    by (auto dest: getPageBlocks_self)
next
  case (CallSetPageId p)
  assume "invoke n c self w = Some (self', w')"
  with CallSetPageId show ?thesis by simp
next
  case CallGetPageId
  assume "invoke n c self w = Some (self', w')"
  with CallGetPageId show ?thesis by simp
next
  case CallGetPage
  assume "invoke n c self w = Some (self', w')"
  with CallGetPage show ?thesis using method_self(1) [of self w] by (cases "getPage self w") auto
next
  case (CallAddText t pb)
  assume "invoke n c self w = Some (self', w')"
  with CallAddText show ?thesis using method_self(2) [of t pb self w]
    by (cases "addText t pb self w") auto
next
  case (CallDeleteBlock bid)
  assume "invoke n c self w = Some (self', w')"
  with CallDeleteBlock show ?thesis using method_self(3) [of bid self w]
    by (cases "deleteBlock bid self w") auto
next
  case (CallUpdateBlock bid t)
  assume "invoke n c self w = Some (self', w')"
  with CallUpdateBlock show ?thesis using method_self(4) [of bid t self w]
    by (cases "updateBlock bid t self w") auto
qed

lemma invoke_all_state:
  "invoke_all n calls self w = Some (self', w') \<Longrightarrow>
     pageId self' = last_set (pageId self) calls \<and> client self' = client self"
proof (induction calls arbitrary: self w)
  case Nil
  then show ?case by simp
next
  case (Cons c cs)
  from Cons.prems obtain s1 w1 where
    a: "invoke n c self w = Some (s1, w1)" and
    b: "invoke_all n cs s1 w1 = Some (self', w')"
    by (auto split: option.splits)
  from invoke_self [OF a] have
    "pageId s1 = last_set (pageId self) [c] \<and> client s1 = client self"
    by (cases c) (simp_all add: setPageId_def)
  moreover have "last_set (pageId self) (c # cs) = last_set (last_set (pageId self) [c]) cs"
    by (cases c) simp_all
  ultimately show ?case using Cons.IH [OF b] by simp
qed

text \<open>Unfolding the definitions of the concrete service and of the operations.\<close>

lemmas scenario_defs =
  scenario_wrapper_def scenario_client_def scenario_world_def scenario_children_def
  paragraph_block_def new_wrapper_def

lemmas eval_defs =
  getPageBlocks_def getTextFromBlock_def processBlockWithChildren_Suc await_def
  console_error_def console_warn_def block_record_def extractTextContent_def
  getPlainTextFromRichText_def or_string_def spread_push_def Let_def

text \<open>Within the argument limit the code does what the specification describes: a block
  with a grandchild, the page of the specification's scenario, and a page with a block
  whose children cannot be listed.\<close>

lemma flatten_preorder_example:
  "processBlockWithChildren 3 (paragraph_block ''D'' ''Outer'' True) scenario_client None
       scenario_world =
     Some ([\<lparr>blockId = ''D'', text_ = ''Outer'', blockType = ''paragraph'', parentBlockId = None\<rparr>,
            \<lparr>blockId = ''B'', text_ = ''Details'', blockType = ''paragraph'', parentBlockId = Some ''D''\<rparr>,
            \<lparr>blockId = ''C'', text_ = ''Sub'', blockType = ''paragraph'', parentBlockId = Some ''B''\<rparr>,
            \<lparr>blockId = ''A'', text_ = ''Intro'', blockType = ''paragraph'', parentBlockId = Some ''D''\<rparr>],
           scenario_world\<lparr>trace := [BlocksChildrenList ''D'', BlocksChildrenList ''B'']\<rparr>)"
proof -
  let ?D = "paragraph_block ''D'' ''Outer'' True"
  let ?w1 = "scenario_world\<lparr>trace := [BlocksChildrenList ''D'']\<rparr>"
  let ?resp = "\<lparr>resp_results = [paragraph_block ''B'' ''Details'' True, paragraph_block ''A'' ''Intro'' False]\<rparr>"
  let ?rest = "[\<lparr>blockId = ''B'', text_ = ''Details'', blockType = ''paragraph'', parentBlockId = Some ''D''\<rparr>,
            \<lparr>blockId = ''C'', text_ = ''Sub'', blockType = ''paragraph'', parentBlockId = Some ''B''\<rparr>,
            \<lparr>blockId = ''A'', text_ = ''Intro'', blockType = ''paragraph'', parentBlockId = Some ''D''\<rparr>]"
  have h: "has_children ?D" by (simp add: paragraph_block_def)
  have a: "await (BlocksChildrenList (block_id ?D)) (blocks_children_list scenario_client (block_id ?D))
             scenario_world = (Inr ?resp, ?w1)"
    by (simp add: scenario_defs await_def)
  have f: "flattenEach 2 (resp_results ?resp) scenario_client (Some (block_id ?D)) ?w1 =
             Some (?rest, scenario_world\<lparr>trace := [BlocksChildrenList ''D'', BlocksChildrenList ''B'']\<rparr>)"
    by (simp add: scenario_defs eval_defs numeral_2_eq_2)
  have l: "length ?rest \<le> arg_limit scenario_world" by (simp add: scenario_world_def)
  show ?thesis
    using flatten_preorder_within_limit [OF h a f l, of None]
    by (simp add: numeral_3_eq_3 numeral_2_eq_2 block_record_def paragraph_block_def
        extractTextContent_def getPlainTextFromRichText_def or_string_def)
qed

lemma getPageBlocks_concat_example:
  "getPageBlocks 2 (scenario_wrapper ''P'') scenario_world =
     Some (Inr [\<lparr>blockId = ''A'', text_ = ''Intro'', blockType = ''paragraph'', parentBlockId = None\<rparr>,
            \<lparr>blockId = ''B'', text_ = ''Details'', blockType = ''paragraph'', parentBlockId = None\<rparr>,
            \<lparr>blockId = ''C'', text_ = ''Sub'', blockType = ''paragraph'', parentBlockId = Some ''B''\<rparr>],
           scenario_wrapper ''P'',
           scenario_world\<lparr>trace := [BlocksChildrenList ''P'', BlocksChildrenList ''B'']\<rparr>)"
proof -
  let ?self = "scenario_wrapper ''P''"
  let ?w1 = "scenario_world\<lparr>trace := [BlocksChildrenList ''P'']\<rparr>"
  let ?resp = "\<lparr>resp_results = [paragraph_block ''A'' ''Intro'' False, paragraph_block ''B'' ''Details'' True]\<rparr>"
  let ?rs = "[\<lparr>blockId = ''A'', text_ = ''Intro'', blockType = ''paragraph'', parentBlockId = None\<rparr>,
            \<lparr>blockId = ''B'', text_ = ''Details'', blockType = ''paragraph'', parentBlockId = None\<rparr>,
            \<lparr>blockId = ''C'', text_ = ''Sub'', blockType = ''paragraph'', parentBlockId = Some ''B''\<rparr>]"
  have a: "await (BlocksChildrenList (pageId ?self))
             (blocks_children_list (client ?self) (pageId ?self)) scenario_world = (Inr ?resp, ?w1)"
    by (simp add: scenario_defs await_def)
  have f: "flattenEach 2 (resp_results ?resp) (client ?self) None ?w1 =
             Some (?rs, scenario_world\<lparr>trace := [BlocksChildrenList ''P'', BlocksChildrenList ''B'']\<rparr>)"
    by (simp add: scenario_defs eval_defs numeral_2_eq_2)
  have l: "length ?rs \<le> arg_limit scenario_world" by (simp add: scenario_world_def)
  show ?thesis by (rule getPageBlocks_concat_within_limit [OF a f l])
qed

lemma children_fetch_failure_example:
  "getPageBlocks 2 (scenario_wrapper ''Q'') scenario_world =
      Some (Inr [\<lparr>blockId = ''A'', text_ = ''Intro'', blockType = ''paragraph'', parentBlockId = None\<rparr>,
            \<lparr>blockId = ''F'', text_ = ''Locked'', blockType = ''paragraph'', parentBlockId = None\<rparr>,
            \<lparr>blockId = ''B'', text_ = ''Details'', blockType = ''paragraph'', parentBlockId = None\<rparr>,
            \<lparr>blockId = ''C'', text_ = ''Sub'', blockType = ''paragraph'', parentBlockId = Some ''B''\<rparr>],
        scenario_wrapper ''Q'',
        scenario_world\<lparr>
         trace := [BlocksChildrenList ''Q'', BlocksChildrenList ''F'', BlocksChildrenList ''B''],
         console := [ConsoleError ''Error fetching children for block F:''
                      (ServiceError ''object_not_found'')]\<rparr>)"
  by (simp add: scenario_defs eval_defs numeral_2_eq_2)

section \<open>The flattener\<close>

text \<open>
  Claim C3. The plain-text projection of a block: when the type-specific payload holds a
  rich-text list, the text is the concatenation, in order, of the plain-text values of
  its segments (a segment without one contributes nothing); when the payload or its
  rich-text list is missing, the text is the type tag in brackets. The witness evaluates
  the two examples of the specification: the segments \<open>Hello, \<close> and \<open>world\<close> give
  \<open>Hello, world\<close>, and an image block without rich text gives \<open>[image]\<close>.
\<close>

theorem extractTextContent_projection:
  "(payload b = Some p \<and> rich_text p = Some segs \<longrightarrow>
      extractTextContent b =
        concat (map (\<lambda>t. case plain_text t of None \<Rightarrow> [] | Some s \<Rightarrow> s) segs))
   \<and> (payload b = None \<or> (\<exists>q. payload b = Some q \<and> rich_text q = None) \<longrightarrow>
      extractTextContent b = ''['' @ block_type b @ '']'')"
  by (auto simp: extractTextContent_def getPlainTextFromRichText_def join_empty_sep
      or_string_empty)

theorem extractTextContent_projection_witness:
  "extractTextContent
     \<lparr>block_id = ''b1'', block_type = ''paragraph'', has_children = False,
      payload = Some \<lparr>rich_text = Some [\<lparr>plain_text = Some ''Hello, ''\<rparr>, \<lparr>plain_text = Some ''world''\<rparr>]\<rparr>\<rparr>
     = ''Hello, world''
   \<and> extractTextContent
     \<lparr>block_id = ''b2'', block_type = ''image'', has_children = False, payload = Some \<lparr>rich_text = None\<rparr>\<rparr>
     = ''[image]''
   \<and> extractTextContent
     \<lparr>block_id = ''b3'', block_type = ''image'', has_children = False, payload = None\<rparr>
     = ''[image]''
   \<and> extractTextContent
     \<lparr>block_id = ''b4'', block_type = ''paragraph'', has_children = False,
      payload = Some \<lparr>rich_text = Some []\<rparr>\<rparr>
     = []"
  using extractTextContent_projection
      [of "\<lparr>block_id = ''b4'', block_type = ''paragraph'', has_children = False,
      payload = Some \<lparr>rich_text = Some []\<rparr>\<rparr>" "\<lparr>rich_text = Some []\<rparr>" "[]"]
    extractTextContent_projection
      [of "\<lparr>block_id = ''b1'', block_type = ''paragraph'', has_children = False,
      payload = Some \<lparr>rich_text = Some [\<lparr>plain_text = Some ''Hello, ''\<rparr>, \<lparr>plain_text = Some ''world''\<rparr>]\<rparr>\<rparr>"
         "\<lparr>rich_text = Some [\<lparr>plain_text = Some ''Hello, ''\<rparr>, \<lparr>plain_text = Some ''world''\<rparr>]\<rparr>"
         "[\<lparr>plain_text = Some ''Hello, ''\<rparr>, \<lparr>plain_text = Some ''world''\<rparr>]"]
    extractTextContent_projection
      [of "\<lparr>block_id = ''b2'', block_type = ''image'', has_children = False, payload = Some \<lparr>rich_text = None\<rparr>\<rparr>"]
    extractTextContent_projection
      [of "\<lparr>block_id = ''b3'', block_type = ''image'', has_children = False, payload = None\<rparr>"]
  by simp

text \<open>
  Claim C6. Flattening a block that declares no children returns exactly one record,
  whose parent is the parent the caller supplied, and none when the block is flattened
  through \<open>getTextFromBlock\<close>, which supplies no parent. No request is sent: the world
  is unchanged.
\<close>

theorem flatten_leaf:
  "\<not> has_children b \<Longrightarrow>
     processBlockWithChildren (Suc n) b cl parentId w =
       Some ([\<lparr>blockId = block_id b, text_ = extractTextContent b,
               blockType = block_type b, parentBlockId = parentId\<rparr>], w)
     \<and> getTextFromBlock (Suc n) b cl w =
       Some ([\<lparr>blockId = block_id b, text_ = extractTextContent b,
               blockType = block_type b, parentBlockId = None\<rparr>], w)"
  by (simp add: getTextFromBlock_def block_record_def processBlockWithChildren_Suc)

theorem flatten_leaf_witness:
  "processBlockWithChildren 1 (paragraph_block ''C'' ''Sub'' False) scenario_client (Some ''B'')
       scenario_world =
     Some ([\<lparr>blockId = ''C'', text_ = ''Sub'', blockType = ''paragraph'',
             parentBlockId = Some ''B''\<rparr>], scenario_world)
   \<and> getTextFromBlock 1 (paragraph_block ''A'' ''Intro'' False) scenario_client scenario_world =
     Some ([\<lparr>blockId = ''A'', text_ = ''Intro'', blockType = ''paragraph'',
             parentBlockId = None\<rparr>], scenario_world)"
  using flatten_leaf [of "paragraph_block ''C'' ''Sub'' False" 0 scenario_client "Some ''B''" scenario_world]
    flatten_leaf [of "paragraph_block ''A'' ''Intro'' False" 0 scenario_client "Some ''B''" scenario_world]
  by (simp add: paragraph_block_def extractTextContent_def getPlainTextFromRichText_def or_string_def)

text \<open>
  Claim C2. The claim is that the flattener returns the block's own record followed by
  the whole flattened sequence of each child. The code pushes a child's sequence with
  \<^verbatim>\<open>results.push(...childResults)\<close> inside the \<^verbatim>\<open>try\<close> block, so the claim holds while
  the sequences stay within the engine's argument limit (\<open>flatten_preorder_within_limit\<close>)
  and fails beyond it. For every limit \<open>Suc k\<close>: block \<open>X\<close> holds \<open>Y\<close> and \<open>A\<close>, both
  requests succeed, and the sequence of \<open>Y\<close> has \<open>Suc k + 1\<close> records. The code returns
  the record of \<open>X\<close> alone and writes that fetching the children of \<open>X\<close> failed, where
  the claim has the records of \<open>X\<close>, \<open>Y\<close>, the paragraphs of \<open>Y\<close>, and \<open>A\<close>.
\<close>

theorem flatten_preorder_overflow:
  "processBlockWithChildren 3 (paragraph_block ''X'' ''Outer'' True) (overflow_client k) None
     (overflow_world k) =
   Some ([\<lparr>blockId = ''X'', text_ = ''Outer'', blockType = ''paragraph'', parentBlockId = None\<rparr>],
     \<lparr>remote = (), trace = [BlocksChildrenList ''X'', BlocksChildrenList ''Y''],
      console = [ConsoleError ''Error fetching children for block X:'' RangeError],
      arg_limit = Suc k\<rparr>)
   \<and> flattenEach 2
       [paragraph_block ''Y'' ''Big'' True, paragraph_block ''A'' ''Intro'' False]
       (overflow_client k) (Some ''X'')
       \<lparr>remote = (), trace = [BlocksChildrenList ''X''], console = [], arg_limit = Suc k\<rparr> =
     Some (\<lparr>blockId = ''Y'', text_ = ''Big'', blockType = ''paragraph'', parentBlockId = Some ''X''\<rparr>
             # leaf_records (Suc k)
             @ [\<lparr>blockId = ''A'', text_ = ''Intro'', blockType = ''paragraph'',
                 parentBlockId = Some ''X''\<rparr>],
       \<lparr>remote = (), trace = [BlocksChildrenList ''X'', BlocksChildrenList ''Y''], console = [],
        arg_limit = Suc k\<rparr>)"
proof (rule conjI)
  let ?X = "paragraph_block ''X'' ''Outer'' True"
  let ?w1 = "\<lparr>remote = (), trace = [BlocksChildrenList ''X''], console = [], arg_limit = Suc k\<rparr>"
  let ?w2 = "\<lparr>remote = (), trace = [BlocksChildrenList ''X'', BlocksChildrenList ''Y''],
              console = [], arg_limit = Suc k\<rparr>"
  have x: "has_children ?X" "block_id ?X = ''X''"
    by (simp_all add: paragraph_block_def)
  have rec: "block_record ?X None =
      \<lparr>blockId = ''X'', text_ = ''Outer'', blockType = ''paragraph'', parentBlockId = None\<rparr>"
    by (simp add: block_record_def paragraph_block_def extractTextContent_def
        getPlainTextFromRichText_def or_string_def)
  have aw: "await (BlocksChildrenList ''X'') (blocks_children_list (overflow_client k) ''X'')
              (overflow_world k)
            = (Inr \<lparr>resp_results = [paragraph_block ''Y'' ''Big'' True,
                                     paragraph_block ''A'' ''Intro'' False]\<rparr>, ?w1)"
    by (simp add: await_def overflow_client_def overflow_children_def overflow_world_def)
  have loop: "processChildren (Suc (Suc 0))
                [paragraph_block ''Y'' ''Big'' True, paragraph_block ''A'' ''Intro'' False]
                (overflow_client k) ''X'' [block_record ?X None] ?w1 =
              Some ([block_record ?X None], Some RangeError, ?w2)"
    using flatten_Y [of 0 k "Some ''X''" "[BlocksChildrenList ''X'']" "[]"]
    by (simp add: spread_push_def)
  have "processBlockWithChildren (Suc (Suc (Suc 0))) ?X (overflow_client k) None (overflow_world k) =
     Some ([\<lparr>blockId = ''X'', text_ = ''Outer'', blockType = ''paragraph'', parentBlockId = None\<rparr>],
     \<lparr>remote = (), trace = [BlocksChildrenList ''X'', BlocksChildrenList ''Y''],
      console = [ConsoleError ''Error fetching children for block X:'' RangeError],
      arg_limit = Suc k\<rparr>)"
    unfolding processBlockWithChildren_Suc [of "Suc (Suc 0)"]
    using aw loop by (simp add: x rec console_error_def del: processChildren.simps)
  then show "processBlockWithChildren 3 ?X (overflow_client k) None (overflow_world k) =
     Some ([\<lparr>blockId = ''X'', text_ = ''Outer'', blockType = ''paragraph'', parentBlockId = None\<rparr>],
     \<lparr>remote = (), trace = [BlocksChildrenList ''X'', BlocksChildrenList ''Y''],
      console = [ConsoleError ''Error fetching children for block X:'' RangeError],
      arg_limit = Suc k\<rparr>)"
    by (simp only: numeral_3_eq_3)
  have "flattenEach (Suc (Suc 0))
       [paragraph_block ''Y'' ''Big'' True, paragraph_block ''A'' ''Intro'' False]
       (overflow_client k) (Some ''X'') ?w1 =
     Some (\<lparr>blockId = ''Y'', text_ = ''Big'', blockType = ''paragraph'', parentBlockId = Some ''X''\<rparr>
             # leaf_records (Suc k)
             @ [\<lparr>blockId = ''A'', text_ = ''Intro'', blockType = ''paragraph'',
                 parentBlockId = Some ''X''\<rparr>], ?w2)"
    using flatten_Y [of 0 k "Some ''X''" "[BlocksChildrenList ''X'']" "[]"]
    by (simp add: record_A)
  then show "flattenEach 2
       [paragraph_block ''Y'' ''Big'' True, paragraph_block ''A'' ''Intro'' False]
       (overflow_client k) (Some ''X'') ?w1 =
     Some (\<lparr>blockId = ''Y'', text_ = ''Big'', blockType = ''paragraph'', parentBlockId = Some ''X''\<rparr>
             # leaf_records (Suc k)
             @ [\<lparr>blockId = ''A'', text_ = ''Intro'', blockType = ''paragraph'',
                 parentBlockId = Some ''X''\<rparr>], ?w2)"
    by (simp only: numeral_2_eq_2)
qed

text \<open>
  Claim C1. In a sequence returned by \<open>getTextFromBlock\<close> or by \<open>getPageBlocks\<close>, a
  record with a parent identifier is preceded by a record with that identifier. The
  only record of \<open>getTextFromBlock\<close> without a parent is the first, and the records of
  \<open>getPageBlocks\<close> without a parent are records of top-level blocks.
\<close>
theorem parent_precedes_child:
  "(getTextFromBlock n b cl w = Some (rs, w') \<longrightarrow>
      (\<forall>i<length rs. \<forall>p. parentBlockId (rs ! i) = Some p \<longrightarrow> (\<exists>j<i. blockId (rs ! j) = p))
      \<and> (\<forall>i<length rs. parentBlockId (rs ! i) = None \<longrightarrow> i = 0))
   \<and> (getPageBlocks n self w = Some (Inr rs, self', w') \<longrightarrow>
      (\<forall>i<length rs. \<forall>p. parentBlockId (rs ! i) = Some p \<longrightarrow> (\<exists>j<i. blockId (rs ! j) = p))
      \<and> (\<forall>response w1.
            await (BlocksChildrenList (pageId self))
              (blocks_children_list (client self) (pageId self)) w = (Inr response, w1) \<longrightarrow>
            (\<forall>i<length rs. parentBlockId (rs ! i) = None \<longrightarrow>
               (\<exists>t \<in> set (resp_results response).
                  rs ! i = \<lparr>blockId = block_id t, text_ = extractTextContent t,
                            blockType = block_type t, parentBlockId = None\<rparr>))))"
proof (intro conjI impI)
  assume a: "getTextFromBlock n b cl w = Some (rs, w')"
  then have sh: "flat_shape b None rs"
    by (auto simp: getTextFromBlock_def intro: process_shape)
  show "\<forall>i<length rs. \<forall>p. parentBlockId (rs ! i) = Some p \<longrightarrow> (\<exists>j<i. blockId (rs ! j) = p)"
    using parents_seen_nth [OF flat_shape_top(1) [OF sh]] by auto
  show "\<forall>i<length rs. parentBlockId (rs ! i) = None \<longrightarrow> i = 0"
    using flat_shape_top(2) [OF sh] by blast
next
  assume a: "getPageBlocks n self w = Some (Inr rs, self', w')"
  obtain res w1 where
    aw: "await (BlocksChildrenList (pageId self))
           (blocks_children_list (client self) (pageId self)) w = (res, w1)"
    by (cases "await (BlocksChildrenList (pageId self))
           (blocks_children_list (client self) (pageId self)) w")
  from a aw obtain response where
    res: "res = Inr response" and
    fe: "processTopLevel n (resp_results response) (client self) [] w1 = Some (Inr rs, w')"
    by (cases res) (auto simp: getPageBlocks_def split: option.splits sum.splits)
  from processTopLevel_shape [OF fe, of "[]"] have
    sh1: "parents_seen [] rs" and
    sh2: "\<forall>r \<in> set rs. parentBlockId r = None \<longrightarrow>
            r \<in> (\<lambda>b. block_record b None) ` set (resp_results response)"
    by auto
  show "\<forall>i<length rs. \<forall>p. parentBlockId (rs ! i) = Some p \<longrightarrow> (\<exists>j<i. blockId (rs ! j) = p)"
    using parents_seen_nth [of "[]" rs] sh1 by auto
  show "\<forall>response w1.
            await (BlocksChildrenList (pageId self))
              (blocks_children_list (client self) (pageId self)) w = (Inr response, w1) \<longrightarrow>
            (\<forall>i<length rs. parentBlockId (rs ! i) = None \<longrightarrow>
               (\<exists>t \<in> set (resp_results response).
                  rs ! i = \<lparr>blockId = block_id t, text_ = extractTextContent t,
                            blockType = block_type t, parentBlockId = None\<rparr>))"
  proof (intro allI impI)
    fix response' w1' i
    assume aw': "await (BlocksChildrenList (pageId self))
              (blocks_children_list (client self) (pageId self)) w = (Inr response', w1')"
      and i: "i < length rs" and none: "parentBlockId (rs ! i) = None"
    from aw aw' res have same: "response' = response" by simp
    from i have "rs ! i \<in> set rs" by (rule nth_mem)
    with sh2 none have "rs ! i \<in> (\<lambda>b. block_record b None) ` set (resp_results response)"
      by blast
    then obtain t where "t \<in> set (resp_results response)" "rs ! i = block_record t None"
      by blast
    then show "\<exists>t \<in> set (resp_results response').
                  rs ! i = \<lparr>blockId = block_id t, text_ = extractTextContent t,
                            blockType = block_type t, parentBlockId = None\<rparr>"
      using same by (auto simp: block_record_def)
  qed
qed

theorem parent_precedes_child_witness:
  "getPageBlocks 2 (scenario_wrapper ''P'') scenario_world =
     Some (Inr [\<lparr>blockId = ''A'', text_ = ''Intro'', blockType = ''paragraph'', parentBlockId = None\<rparr>,
            \<lparr>blockId = ''B'', text_ = ''Details'', blockType = ''paragraph'', parentBlockId = None\<rparr>,
            \<lparr>blockId = ''C'', text_ = ''Sub'', blockType = ''paragraph'', parentBlockId = Some ''B''\<rparr>],
           scenario_wrapper ''P'',
           scenario_world\<lparr>trace := [BlocksChildrenList ''P'', BlocksChildrenList ''B'']\<rparr>)
   \<and> (\<exists>j<2. blockId
         ([\<lparr>blockId = ''A'', text_ = ''Intro'', blockType = ''paragraph'', parentBlockId = None\<rparr>,
            \<lparr>blockId = ''B'', text_ = ''Details'', blockType = ''paragraph'', parentBlockId = None\<rparr>,
            \<lparr>blockId = ''C'', text_ = ''Sub'', blockType = ''paragraph'', parentBlockId = Some ''B''\<rparr>] ! j)
         = ''B'')
   \<and> getTextFromBlock 2 (paragraph_block ''B'' ''Details'' True) scenario_client scenario_world =
     Some ([\<lparr>blockId = ''B'', text_ = ''Details'', blockType = ''paragraph'', parentBlockId = None\<rparr>,
            \<lparr>blockId = ''C'', text_ = ''Sub'', blockType = ''paragraph'', parentBlockId = Some ''B''\<rparr>],
           scenario_world\<lparr>trace := [BlocksChildrenList ''B'']\<rparr>)
   \<and> (\<exists>j<1. blockId
         ([\<lparr>blockId = ''B'', text_ = ''Details'', blockType = ''paragraph'', parentBlockId = None\<rparr>,
            \<lparr>blockId = ''C'', text_ = ''Sub'', blockType = ''paragraph'', parentBlockId = Some ''B''\<rparr>] ! j)
         = ''B'')"
proof -
  let ?rs = "[\<lparr>blockId = ''A'', text_ = ''Intro'', blockType = ''paragraph'', parentBlockId = None\<rparr>,
            \<lparr>blockId = ''B'', text_ = ''Details'', blockType = ''paragraph'', parentBlockId = None\<rparr>,
            \<lparr>blockId = ''C'', text_ = ''Sub'', blockType = ''paragraph'', parentBlockId = Some ''B''\<rparr>]"
  let ?qs = "[\<lparr>blockId = ''B'', text_ = ''Details'', blockType = ''paragraph'', parentBlockId = None\<rparr>,
            \<lparr>blockId = ''C'', text_ = ''Sub'', blockType = ''paragraph'', parentBlockId = Some ''B''\<rparr>]"
  let ?w' = "scenario_world\<lparr>trace := [BlocksChildrenList ''P'', BlocksChildrenList ''B'']\<rparr>"
  let ?v' = "scenario_world\<lparr>trace := [BlocksChildrenList ''B'']\<rparr>"
  have run: "getPageBlocks 2 (scenario_wrapper ''P'') scenario_world =
               Some (Inr ?rs, scenario_wrapper ''P'', ?w')"
    by (simp add: scenario_defs eval_defs numeral_2_eq_2)
  have one: "getTextFromBlock 2 (paragraph_block ''B'' ''Details'' True) scenario_client scenario_world =
               Some (?qs, ?v')"
    by (simp add: scenario_defs eval_defs numeral_2_eq_2)
  have "\<forall>i<length ?rs. \<forall>p. parentBlockId (?rs ! i) = Some p \<longrightarrow> (\<exists>j<i. blockId (?rs ! j) = p)"
    using parent_precedes_child [where n = 2 and w = scenario_world and self = "scenario_wrapper ''P''"
        and rs = ?rs and self' = "scenario_wrapper ''P''" and w' = ?w'] run
    by blast
  then have a: "\<exists>j<2. blockId (?rs ! j) = ''B''"
    by (elim allE [of _ 2] allE [of _ "''B''"]) simp
  have "\<forall>i<length ?qs. \<forall>p. parentBlockId (?qs ! i) = Some p \<longrightarrow> (\<exists>j<i. blockId (?qs ! j) = p)"
    using parent_precedes_child [where n = 2 and b = "paragraph_block ''B'' ''Details'' True"
        and cl = scenario_client and w = scenario_world and rs = ?qs and w' = ?v'] one
    by blast
  then have b: "\<exists>j<1. blockId (?qs ! j) = ''B''"
    by (elim allE [of _ 1] allE [of _ "''B''"]) simp
  from run a one b show ?thesis by blast
qed


section \<open>The facade\<close>

text \<open>
  Claim C5. The claim is that \<open>getPageBlocks\<close> returns the flattened sequences of the
  top-level blocks, one after the other. The code pushes each sequence with
  \<^verbatim>\<open>blocks.push(...processedBlocks)\<close> inside the \<^verbatim>\<open>try\<close> block, so the claim holds
  while the sequences stay within the engine's argument limit
  (\<open>getPageBlocks_concat_within_limit\<close>) and fails beyond it. For every limit \<open>Suc k\<close>:
  page \<open>X\<close> holds \<open>Y\<close> and \<open>A\<close>, both requests succeed, and the sequence of \<open>Y\<close> has
  \<open>Suc k + 1\<close> records. The code logs that retrieving the page blocks failed and rethrows
  a \<open>RangeError\<close>, where the claim has the records of \<open>Y\<close>, its paragraphs, and \<open>A\<close>.
\<close>

theorem getPageBlocks_concat_overflow:
  "getPageBlocks 2 (overflow_wrapper k ''X'') (overflow_world k) =
     Some (Inl RangeError, overflow_wrapper k ''X'',
       \<lparr>remote = (), trace = [BlocksChildrenList ''X'', BlocksChildrenList ''Y''],
        console = [ConsoleError ''Error retrieving page blocks from Notion:'' RangeError],
        arg_limit = Suc k\<rparr>)
   \<and> flattenEach 2
       [paragraph_block ''Y'' ''Big'' True, paragraph_block ''A'' ''Intro'' False]
       (overflow_client k) None
       \<lparr>remote = (), trace = [BlocksChildrenList ''X''], console = [], arg_limit = Suc k\<rparr> =
     Some (\<lparr>blockId = ''Y'', text_ = ''Big'', blockType = ''paragraph'', parentBlockId = None\<rparr>
             # leaf_records (Suc k)
             @ [\<lparr>blockId = ''A'', text_ = ''Intro'', blockType = ''paragraph'',
                 parentBlockId = None\<rparr>],
       \<lparr>remote = (), trace = [BlocksChildrenList ''X'', BlocksChildrenList ''Y''], console = [],
        arg_limit = Suc k\<rparr>)"
proof (rule conjI)
  let ?self = "overflow_wrapper k ''X''"
  let ?w1 = "\<lparr>remote = (), trace = [BlocksChildrenList ''X''], console = [], arg_limit = Suc k\<rparr>"
  let ?w2 = "\<lparr>remote = (), trace = [BlocksChildrenList ''X'', BlocksChildrenList ''Y''],
              console = [], arg_limit = Suc k\<rparr>"
  have self: "client ?self = overflow_client k" "pageId ?self = ''X''"
    by (simp_all add: overflow_wrapper_def new_wrapper_def)
  have aw: "await (BlocksChildrenList ''X'') (blocks_children_list (overflow_client k) ''X'')
              (overflow_world k)
            = (Inr \<lparr>resp_results = [paragraph_block ''Y'' ''Big'' True,
                                     paragraph_block ''A'' ''Intro'' False]\<rparr>, ?w1)"
    by (simp add: await_def overflow_client_def overflow_children_def overflow_world_def)
  have loop: "processTopLevel (Suc (Suc 0))
                [paragraph_block ''Y'' ''Big'' True, paragraph_block ''A'' ''Intro'' False]
                (overflow_client k) [] ?w1 = Some (Inl RangeError, ?w2)"
    using flatten_Y [of 0 k None "[BlocksChildrenList ''X'']" "[]"]
    by (simp add: spread_push_def getTextFromBlock_def)
  have "getPageBlocks (Suc (Suc 0)) ?self (overflow_world k) =
     Some (Inl RangeError, ?self,
       \<lparr>remote = (), trace = [BlocksChildrenList ''X'', BlocksChildrenList ''Y''],
        console = [ConsoleError ''Error retrieving page blocks from Notion:'' RangeError],
        arg_limit = Suc k\<rparr>)"
    unfolding getPageBlocks_def self
    using aw loop by (simp add: console_error_def del: processTopLevel.simps)
  then show "getPageBlocks 2 ?self (overflow_world k) =
     Some (Inl RangeError, ?self,
       \<lparr>remote = (), trace = [BlocksChildrenList ''X'', BlocksChildrenList ''Y''],
        console = [ConsoleError ''Error retrieving page blocks from Notion:'' RangeError],
        arg_limit = Suc k\<rparr>)"
    by (simp only: numeral_2_eq_2)
  have "flattenEach (Suc (Suc 0))
       [paragraph_block ''Y'' ''Big'' True, paragraph_block ''A'' ''Intro'' False]
       (overflow_client k) None ?w1 =
     Some (\<lparr>blockId = ''Y'', text_ = ''Big'', blockType = ''paragraph'', parentBlockId = None\<rparr>
             # leaf_records (Suc k)
             @ [\<lparr>blockId = ''A'', text_ = ''Intro'', blockType = ''paragraph'',
                 parentBlockId = None\<rparr>], ?w2)"
    using flatten_Y [of 0 k None "[BlocksChildrenList ''X'']" "[]"]
    by (simp add: record_A)
  then show "flattenEach 2
       [paragraph_block ''Y'' ''Big'' True, paragraph_block ''A'' ''Intro'' False]
       (overflow_client k) None ?w1 =
     Some (\<lparr>blockId = ''Y'', text_ = ''Big'', blockType = ''paragraph'', parentBlockId = None\<rparr>
             # leaf_records (Suc k)
             @ [\<lparr>blockId = ''A'', text_ = ''Intro'', blockType = ''paragraph'',
                 parentBlockId = None\<rparr>], ?w2)"
    by (simp only: numeral_2_eq_2)
qed

text \<open>
  Claim C7. When \<open>updateBlock\<close> retrieves a block whose type is not \<open>paragraph\<close>, it
  writes a warning to the console and sends the update request all the same; what it
  returns is what the service answered to that request (an error is logged and
  rethrown).
\<close>

theorem updateBlock_unsupported_type:
  assumes "await (BlocksRetrieve bid) (blocks_retrieve (client self) bid) w = (Inr blockInfo, w1)"
    and "block_type blockInfo \<noteq> ''paragraph''"
    and "await (BlocksUpdate bid (paragraph_of txt)) (blocks_update (client self) bid (paragraph_of txt))
           (console_warn (unsupported_warning (block_type blockInfo)) w1) = (outcome, w3)"
  shows "updateBlock bid txt self w =
           (outcome, self,
            case outcome of Inr response \<Rightarrow> w3
            | Inl err \<Rightarrow> console_error ''Error updating block in Notion:'' err w3)
         \<and> trace w3 = trace w @ [BlocksRetrieve bid, BlocksUpdate bid (paragraph_of txt)]
         \<and> console w3 = console w @ [ConsoleWarn (unsupported_warning (block_type blockInfo))]"
  using assms
  by (auto simp: updateBlock_def await_def console_warn_def console_error_def Let_def
      split: prod.splits sum.splits)

theorem updateBlock_unsupported_type_witness:
  "updateBlock ''H'' ''new text'' (scenario_wrapper ''P'') scenario_world =
     (Inl (ServiceError ''validation_error''), scenario_wrapper ''P'',
      \<lparr>remote = (),
       trace = [BlocksRetrieve ''H'', BlocksUpdate ''H'' (paragraph_of ''new text'')],
       console = [ConsoleWarn (unsupported_warning ''heading_1''),
                  ConsoleError ''Error updating block in Notion:'' (ServiceError ''validation_error'')], arg_limit = 65536\<rparr>)"
proof -
  let ?info = "\<lparr>block_id = ''H'', block_type = ''heading_1'', has_children = False,
                          payload = Some \<lparr>rich_text = Some []\<rparr>\<rparr>"
  let ?w1 = "scenario_world\<lparr>trace := [BlocksRetrieve ''H'']\<rparr>"
  let ?w3 = "\<lparr>remote = (),
       trace = [BlocksRetrieve ''H'', BlocksUpdate ''H'' (paragraph_of ''new text'')],
       console = [ConsoleWarn (unsupported_warning ''heading_1'')], arg_limit = 65536\<rparr>"
  have a: "await (BlocksRetrieve ''H'') (blocks_retrieve (client (scenario_wrapper ''P'')) ''H'')
             scenario_world = (Inr ?info, ?w1)"
    by (simp add: scenario_defs await_def)
  have b: "block_type ?info \<noteq> ''paragraph''" by simp
  have c: "await (BlocksUpdate ''H'' (paragraph_of ''new text''))
             (blocks_update (client (scenario_wrapper ''P'')) ''H'' (paragraph_of ''new text''))
             (console_warn (unsupported_warning (block_type ?info)) ?w1)
           = (Inl (ServiceError ''validation_error''), ?w3)"
    by (simp add: scenario_defs await_def console_warn_def)
  show ?thesis
    using updateBlock_unsupported_type [OF a b c]
    by (simp add: console_error_def)
qed

text \<open>
  Claim C9. \<open>addText\<close> with the empty string as the parent block does what \<open>addText\<close>
  without a parent block does: the request appends to the configured page.
\<close>

theorem addText_empty_parent:
  "addText txt (Some []) self w = addText txt None self w
   \<and> (\<exists>children.
        trace (snd (snd (addText txt (Some []) self w))) =
          trace w @ [BlocksChildrenAppend (pageId self) children])"
  by (auto simp: addText_def or_string_def await_def console_error_def Let_def
      split: prod.splits sum.splits)

theorem addText_empty_parent_witness:
  "addText ''hi'' (Some []) (scenario_wrapper ''P'') scenario_world =
     (Inr \<lparr>resp_results = []\<rparr>, scenario_wrapper ''P'',
      scenario_world\<lparr>trace :=
        [BlocksChildrenAppend ''P''
           [\<lparr>new_object = ''block'', new_type = ''paragraph'', new_paragraph = paragraph_of ''hi''\<rparr>]]\<rparr>)
   \<and> addText ''hi'' None (scenario_wrapper ''P'') scenario_world =
     (Inr \<lparr>resp_results = []\<rparr>, scenario_wrapper ''P'',
      scenario_world\<lparr>trace :=
        [BlocksChildrenAppend ''P''
           [\<lparr>new_object = ''block'', new_type = ''paragraph'', new_paragraph = paragraph_of ''hi''\<rparr>]]\<rparr>)"
  using addText_empty_parent [of "''hi''" "scenario_wrapper ''P''" scenario_world]
  by (simp add: addText_def or_string_def await_def scenario_defs)



text \<open>
  Claim C8. The page identifier of the facade is the one given at construction until
  \<open>setPageId\<close> replaces it: after any sequence of calls \<open>getPageId\<close> returns the
  identifier most recently set, and the client is the one constructed. \<open>setPageId\<close>
  and \<open>getPageId\<close> leave the world as it is (no request, no console line), and a call
  of any other method returns the facade object unchanged.
\<close>

theorem facade_page_identifier:
  "(invoke_all n calls self w = Some (self', w') \<longrightarrow>
      getPageId self' = last_set (pageId self) calls \<and> client self' = client self)
   \<and> getPageId (new_wrapper new_client config) = config_pageId config
   \<and> getPageId (setPageId p self) = p
   \<and> client (setPageId p self) = client self
   \<and> invoke n (CallSetPageId p) self w = Some (setPageId p self, w)
   \<and> invoke n CallGetPageId self w = Some (self, w)
   \<and> ((\<forall>q. c \<noteq> CallSetPageId q) \<longrightarrow> invoke n c self w = Some (self', w') \<longrightarrow> self' = self)"
proof (intro conjI impI)
  assume "invoke_all n calls self w = Some (self', w')"
  from invoke_all_state [OF this]
  show "getPageId self' = last_set (pageId self) calls" and "client self' = client self"
    by (simp_all add: getPageId_def)
next
  assume "\<forall>q. c \<noteq> CallSetPageId q" and "invoke n c self w = Some (self', w')"
  with invoke_self [of n c self w self' w'] show "self' = self"
    by (cases c) simp_all
qed (simp_all add: getPageId_def setPageId_def new_wrapper_def)

theorem facade_page_identifier_witness:
  "invoke_all 2
     [CallGetPage, CallSetPageId ''Q'', CallAddText ''hi'' None, CallGetPageBlocks,
      CallSetPageId ''P'', CallUpdateBlock ''H'' ''new text'', CallDeleteBlock ''A'', CallGetPageId]
     (scenario_wrapper ''D'') scenario_world =
     Some (scenario_wrapper ''P'',
       \<lparr>remote = (),
        trace = [PagesRetrieve ''D'',
                 BlocksChildrenAppend ''Q''
                   [\<lparr>new_object = ''block'', new_type = ''paragraph'',
                     new_paragraph = paragraph_of ''hi''\<rparr>],
                 BlocksChildrenList ''Q'', BlocksChildrenList ''F'', BlocksChildrenList ''B'',
                 BlocksRetrieve ''H'', BlocksUpdate ''H'' (paragraph_of ''new text''),
                 BlocksDelete ''A''],
        console = [ConsoleError ''Error fetching children for block F:''
                     (ServiceError ''object_not_found''),
                   ConsoleWarn (unsupported_warning ''heading_1''),
                   ConsoleError ''Error updating block in Notion:''
                     (ServiceError ''validation_error''),
                   ConsoleError ''Error deleting block from Notion:''
                     (ServiceError ''object_not_found'')], arg_limit = 65536\<rparr>)
   \<and> getPageId (scenario_wrapper ''P'') = ''P''"
proof -
  let ?calls = "[CallGetPage, CallSetPageId ''Q'', CallAddText ''hi'' None, CallGetPageBlocks,
      CallSetPageId ''P'', CallUpdateBlock ''H'' ''new text'', CallDeleteBlock ''A'', CallGetPageId]"
  let ?w' = "\<lparr>remote = (),
        trace = [PagesRetrieve ''D'',
                 BlocksChildrenAppend ''Q''
                   [\<lparr>new_object = ''block'', new_type = ''paragraph'',
                     new_paragraph = paragraph_of ''hi''\<rparr>],
                 BlocksChildrenList ''Q'', BlocksChildrenList ''F'', BlocksChildrenList ''B'',
                 BlocksRetrieve ''H'', BlocksUpdate ''H'' (paragraph_of ''new text''),
                 BlocksDelete ''A''],
        console = [ConsoleError ''Error fetching children for block F:''
                     (ServiceError ''object_not_found''),
                   ConsoleWarn (unsupported_warning ''heading_1''),
                   ConsoleError ''Error updating block in Notion:''
                     (ServiceError ''validation_error''),
                   ConsoleError ''Error deleting block from Notion:''
                     (ServiceError ''object_not_found'')], arg_limit = 65536\<rparr>"
  have run: "invoke_all 2 ?calls (scenario_wrapper ''D'') scenario_world =
               Some (scenario_wrapper ''P'', ?w')"
    by (simp add: scenario_defs eval_defs numeral_2_eq_2 setPageId_def getPage_def addText_def
        deleteBlock_def updateBlock_def)
  have "getPageId (scenario_wrapper ''P'') = last_set (pageId (scenario_wrapper ''D'')) ?calls"
    using facade_page_identifier [where n = 2 and calls = ?calls and self = "scenario_wrapper ''D''"
        and w = scenario_world and self' = "scenario_wrapper ''P''" and w' = ?w'] run
    by blast
  then have "getPageId (scenario_wrapper ''P'') = ''P''" by simp
  with run show ?thesis by blast
qed

end
